theory Spec2Isabelle
  imports Complex_Main "HOL-Library.Product_Lexorder"
begin

section \<open>Python strings\<close>

text \<open>
  A Python \<open>str\<close> is a sequence of Unicode code points. The glossary terms are Chinese, so a
  string is modelled as the list of its code points, as \<open>ord\<close> gives them (\<open>len\<close> counts code
  points, not bytes);
  \<open>lit\<close> turns an ASCII literal of the source into that representation.
\<close>

type_synonym str = "int list"

definition lit :: "string \<Rightarrow> str" where
  "lit s = map of_char s"

text \<open>
  \<open>str.isspace\<close> of one code point: the code points CPython treats as whitespace, which are
  the ones \<open>str.strip()\<close> removes when called without an argument.
\<close>

definition isspace :: "int \<Rightarrow> bool" where
  "isspace c \<longleftrightarrow>
     (9 \<le> c \<and> c \<le> 13) \<or> (28 \<le> c \<and> c \<le> 32) \<or> c = 133 \<or> c = 160 \<or> c = 5760 \<or>
     (8192 \<le> c \<and> c \<le> 8202) \<or> c = 8232 \<or> c = 8233 \<or> c = 8239 \<or> c = 8287 \<or> c = 12288"

definition strip :: "str \<Rightarrow> str" where
  "strip s = rev (dropWhile isspace (rev (dropWhile isspace s)))"

text \<open>
  \<open>s.replace(old, new)\<close>: every non-overlapping occurrence of \<open>old\<close>, scanning from the left,
  is replaced; an empty \<open>old\<close> matches before every code point and at the end.
\<close>

fun str_replace :: "str \<Rightarrow> str \<Rightarrow> str \<Rightarrow> str" where
  "str_replace old new [] = (if old = [] then new else [])"
| "str_replace old new (c # cs) =
     (if old = [] then new @ c # str_replace old new cs
      else if take (length old) (c # cs) = old
        then new @ str_replace old new (drop (length old) (c # cs))
        else c # str_replace old new cs)"

text \<open>\<open>old in s\<close> for strings: \<open>old\<close> occurs in \<open>s\<close> as a contiguous run.\<close>

fun occurs_in :: "str \<Rightarrow> str \<Rightarrow> bool" where
  "occurs_in old [] \<longleftrightarrow> old = []"
| "occurs_in old (c # cs) \<longleftrightarrow> take (length old) (c # cs) = old \<or> occurs_in old cs"

text \<open>
  What \<open>sqlite3\<close> can bind as a statement parameter: it encodes a \<open>str\<close> as UTF-8 and raises
  \<open>UnicodeEncodeError\<close> on a surrogate code point (U+D800 to U+DFFF), which a Python \<open>str\<close> may
  hold.
\<close>

definition bindable :: "str \<Rightarrow> bool" where
  "bindable s \<longleftrightarrow> list_all (\<lambda>c. \<not> (55296 \<le> c \<and> c \<le> 57343)) s"

section \<open>Logging\<close>

text \<open>
  The module \<open>translation_engine\<close> has one module-level logger. A record of it keeps the level
  and the fixed part of the message (the interpolated values are left out).
\<close>

datatype level = DEBUG | INFO | WARNING | ERROR

datatype log_record = Log level string

section \<open>TranslationResult\<close>

record TranslationResult =
  original_text :: str
  translated_text :: str
  confidence :: real
  source_lang :: str
  target_lang :: str
  glossary_matches :: "str list"

text \<open>The constructor with its defaults for the arguments after the first three.\<close>

definition TranslationResult3 :: "str \<Rightarrow> str \<Rightarrow> real \<Rightarrow> TranslationResult" where
  "TranslationResult3 original translated conf =
     \<lparr>original_text = original, translated_text = translated, confidence = conf,
      source_lang = lit ''auto'', target_lang = lit ''en'', glossary_matches = []\<rparr>"

section \<open>IndustrialGlossary: the SQLite table\<close>

text \<open>
  Table \<open>glossary\<close> as \<open>_initialize_db\<close> creates it: \<open>id INTEGER PRIMARY KEY AUTOINCREMENT\<close>,
  \<open>chinese\<close>, \<open>english\<close> (both \<open>NOT NULL\<close>), \<open>category\<close>, \<open>confidence REAL DEFAULT 1.0\<close>,
  \<open>usage_count INTEGER DEFAULT 0\<close> and \<open>UNIQUE(chinese, english)\<close>. The table is the list of its
  rows in rowid order; \<open>seq\<close> is the \<open>sqlite_sequence\<close> entry that \<open>AUTOINCREMENT\<close> keeps (the
  largest id ever handed out). A \<open>REAL\<close> is modelled as a real number: the program only stores,
  compares and returns confidences.

  \<open>db_status\<close> is the condition of the backing file during a call: \<open>Available\<close>, \<open>Locked\<close>
  (another connection holds the write lock: statements that read succeed, statements that write
  raise) or \<open>Unavailable\<close> (every statement raises).
\<close>

record glossary_row =
  row_id :: nat
  chinese :: str
  english :: str
  category :: str
  row_confidence :: real
  usage_count :: nat

datatype db_status = Available | Locked | Unavailable

datatype db_error = OperationalError | UnicodeEncodeError

record env =
  glossary :: "glossary_row list"
  seq :: nat
  status :: db_status
  log :: "log_record list"

definition logger :: "level \<Rightarrow> string \<Rightarrow> env \<Rightarrow> env" where
  "logger lv msg w = w\<lparr>log := log w @ [Log lv msg]\<rparr>"

definition same_key :: "str \<Rightarrow> str \<Rightarrow> glossary_row \<Rightarrow> bool" where
  "same_key c e r \<longleftrightarrow> chinese r = c \<and> english r = e"

text \<open>
  \<open>INSERT INTO glossary (chinese, english, category, confidence)\<close>: the new row takes the next
  id after the largest one ever used and the column default \<open>usage_count = 0\<close>.
\<close>

definition next_id :: "glossary_row list \<Rightarrow> nat \<Rightarrow> nat" where
  "next_id tbl s = Suc (fold max (map row_id tbl) s)"

definition insert_row ::
  "str \<times> str \<times> str \<times> real \<Rightarrow> glossary_row list \<times> nat \<Rightarrow> glossary_row list \<times> nat" where
  "insert_row t db =
     (case (t, db) of ((c, e, cat, conf), (tbl, s)) \<Rightarrow>
        (tbl @ [\<lparr>row_id = next_id tbl s, chinese = c, english = e, category = cat,
                 row_confidence = conf, usage_count = 0\<rparr>],
         next_id tbl s))"

text \<open>
  \<open>INSERT OR IGNORE\<close>: a row that would break \<open>UNIQUE(chinese, english)\<close> is skipped. The id
  allotted to it is used up all the same: \<open>sqlite_sequence\<close> advances.
\<close>

definition insert_or_ignore ::
  "str \<times> str \<times> str \<times> real \<Rightarrow> glossary_row list \<times> nat \<Rightarrow> glossary_row list \<times> nat" where
  "insert_or_ignore t db =
     (case (t, db) of ((c, e, cat, conf), (tbl, s)) \<Rightarrow>
        if list_ex (same_key c e) tbl then (tbl, next_id tbl s) else insert_row t (tbl, s))"

text \<open>\<open>INSERT OR REPLACE\<close>: the rows that conflict are deleted, then the new row is inserted.\<close>

definition insert_or_replace ::
  "str \<times> str \<times> str \<times> real \<Rightarrow> glossary_row list \<times> nat \<Rightarrow> glossary_row list \<times> nat" where
  "insert_or_replace t db =
     (case (t, db) of ((c, e, cat, conf), (tbl, s)) \<Rightarrow>
        insert_row t (filter (\<lambda>r. \<not> same_key c e r) tbl, s))"

text \<open>
  \<open>SELECT english, category, confidence FROM glossary WHERE chinese = ?
  ORDER BY confidence DESC, usage_count DESC\<close>. SQL leaves the order of rows with equal keys
  open; here they keep their rowid order (the sort is stable).
\<close>

definition rank_key :: "glossary_row \<Rightarrow> real \<times> int" where
  "rank_key r = (- row_confidence r, - int (usage_count r))"

definition select_rows :: "glossary_row list \<Rightarrow> str \<Rightarrow> glossary_row list" where
  "select_rows tbl t = sort_key rank_key (filter (\<lambda>r. chinese r = t) tbl)"

definition select_glossary :: "glossary_row list \<Rightarrow> str \<Rightarrow> (str \<times> str \<times> real) list" where
  "select_glossary tbl t = map (\<lambda>r. (english r, category r, row_confidence r)) (select_rows tbl t)"

text \<open>\<open>UPDATE glossary SET usage_count = usage_count + 1 WHERE chinese = ?\<close>\<close>

definition update_usage :: "glossary_row list \<Rightarrow> str \<Rightarrow> glossary_row list" where
  "update_usage tbl t =
     map (\<lambda>r. if chinese r = t then r\<lparr>usage_count := usage_count r + 1\<rparr> else r) tbl"

text \<open>The 36 built-in terms of \<open>_load_default_terms\<close>, in the order of the source.\<close>

definition default_terms :: "(str \<times> str \<times> str \<times> real) list" where
  "default_terms =
    [([21551, 21160], lit ''Start'', lit ''automation'', 1.0),
     ([20572, 27490], lit ''Stop'', lit ''automation'', 1.0),
     ([26242, 20572], lit ''Pause'', lit ''automation'', 1.0),
     ([22797, 20301], lit ''Reset'', lit ''automation'', 1.0),
     ([25253, 35686], lit ''Alarm'', lit ''automation'', 1.0),
     ([25925, 38556], lit ''Fault'', lit ''automation'', 1.0),
     ([36816, 34892], lit ''Run'', lit ''automation'', 1.0),
     ([25163, 21160], lit ''Manual'', lit ''automation'', 1.0),
     ([33258, 21160], lit ''Auto'', lit ''automation'', 1.0),
     ([31243, 24207], lit ''Program'', lit ''plc'', 1.0),
     ([19979, 36733], lit ''Download'', lit ''plc'', 1.0),
     ([19978, 20256], lit ''Upload'', lit ''plc'', 1.0),
     ([30417, 25511], lit ''Monitor'', lit ''plc'', 1.0),
     ([35843, 35797], lit ''Debug'', lit ''plc'', 1.0),
     ([20223, 30495], lit ''Simulation'', lit ''plc'', 1.0),
     ([20282, 26381], lit ''Servo'', lit ''motor'', 1.0),
     ([30005, 26426], lit ''Motor'', lit ''motor'', 1.0),
     ([36895, 24230], lit ''Speed'', lit ''motor'', 1.0),
     ([20301, 32622], lit ''Position'', lit ''motor'', 1.0),
     ([25197, 30697], lit ''Torque'', lit ''motor'', 1.0),
     ([32534, 30721, 22120], lit ''Encoder'', lit ''motor'', 1.0),
     ([30028, 38754], lit ''Interface'', lit ''hmi'', 1.0),
     ([30011, 38754], lit ''Screen'', lit ''hmi'', 1.0),
     ([25353, 38062], lit ''Button'', lit ''hmi'', 1.0),
     ([25351, 31034, 28783], lit ''Indicator'', lit ''hmi'', 1.0),
     ([25968, 20540], lit ''Value'', lit ''hmi'', 1.0),
     ([30830, 23450], lit ''OK'', lit ''ui'', 1.0),
     ([21462, 28040], lit ''Cancel'', lit ''ui'', 1.0),
     ([35774, 32622], lit ''Settings'', lit ''ui'', 1.0),
     ([37197, 32622], lit ''Configuration'', lit ''ui'', 1.0),
     ([21442, 25968], lit ''Parameter'', lit ''ui'', 1.0),
     ([36873, 39033], lit ''Option'', lit ''ui'', 1.0),
     ([33756, 21333], lit ''Menu'', lit ''ui'', 1.0),
     ([24037, 20855], lit ''Tools'', lit ''ui'', 1.0),
     ([24110, 21161], lit ''Help'', lit ''ui'', 1.0),
     ([20851, 20110], lit ''About'', lit ''ui'', 1.0)]"

text \<open>
  Each method opens \<open>with sqlite3.connect(...) as conn\<close>: the statements of the block are one
  transaction, committed when the block ends normally and rolled back when it raises. The
  \<open>_try\<close> functions are the bodies of the \<open>try\<close> blocks (\<open>Inl\<close>: the exception raised, with the
  database left as it was); the methods themselves add the \<open>except Exception\<close> handler.

  A statement raises when the file is unavailable, when one of its text parameters cannot be
  bound, or, for a statement that writes, when the file is locked; the parameters are bound
  before the statement runs. The built-in terms are constants that can all be bound.
\<close>

definition load_default_terms_try :: "env \<Rightarrow> db_error + env" where
  "load_default_terms_try w =
     (if status w \<noteq> Available then Inl OperationalError
      else case fold insert_or_ignore default_terms (glossary w, seq w) of
        (tbl, s) \<Rightarrow> Inr (logger INFO ''Loaded default terms into glossary''
                          (w\<lparr>glossary := tbl, seq := s\<rparr>)))"

definition load_default_terms :: "env \<Rightarrow> env" where
  "load_default_terms w =
     (case load_default_terms_try w of
        Inr w' \<Rightarrow> w'
      | Inl e \<Rightarrow> logger ERROR ''Error loading default terms'' w)"

definition lookup_try :: "env \<Rightarrow> str \<Rightarrow> db_error + env \<times> (str \<times> str \<times> real) list" where
  "lookup_try w chinese_text =
     (if status w = Unavailable then Inl OperationalError
      else if \<not> bindable chinese_text then Inl UnicodeEncodeError
      else let results = select_glossary (glossary w) chinese_text in
        if results \<noteq> [] then
          (if status w = Locked then Inl OperationalError
           else Inr (w\<lparr>glossary := update_usage (glossary w) chinese_text\<rparr>, results))
        else Inr (w, results))"

definition lookup :: "env \<Rightarrow> str \<Rightarrow> env \<times> (str \<times> str \<times> real) list" where
  "lookup w chinese_text =
     (case lookup_try w chinese_text of
        Inr r \<Rightarrow> r
      | Inl e \<Rightarrow> (logger ERROR ''Error looking up term'' w, []))"

definition add_term_try :: "env \<Rightarrow> str \<Rightarrow> str \<Rightarrow> str \<Rightarrow> real \<Rightarrow> db_error + env" where
  "add_term_try w c e cat conf =
     (if status w = Unavailable then Inl OperationalError
      else if \<not> (bindable c \<and> bindable e \<and> bindable cat) then Inl UnicodeEncodeError
      else if status w = Locked then Inl OperationalError
      else case insert_or_replace (c, e, cat, conf) (glossary w, seq w) of
        (tbl, s) \<Rightarrow> Inr (logger INFO ''Added term'' (w\<lparr>glossary := tbl, seq := s\<rparr>)))"

definition add_term :: "env \<Rightarrow> str \<Rightarrow> str \<Rightarrow> str \<Rightarrow> real \<Rightarrow> env" where
  "add_term w c e cat conf =
     (case add_term_try w c e cat conf of
        Inr w' \<Rightarrow> w'
      | Inl err \<Rightarrow> logger ERROR ''Error adding term'' w)"

text \<open>The store takes the write of \<open>add_term\<close>: the file can be written and the text can be bound.\<close>

definition write_accepted :: "env \<Rightarrow> str \<Rightarrow> str \<Rightarrow> str \<Rightarrow> bool" where
  "write_accepted w c e cat \<longleftrightarrow> status w = Available \<and> bindable c \<and> bindable e \<and> bindable cat"

text \<open>
  What the data model of a glossary entry holds: every column but the surrogate \<open>id\<close>, which no
  statement of the program reads.
\<close>

definition entry :: "glossary_row \<Rightarrow> str \<times> str \<times> str \<times> real \<times> nat" where
  "entry r = (chinese r, english r, category r, row_confidence r, usage_count r)"

definition entries :: "env \<Rightarrow> (str \<times> str \<times> str \<times> real \<times> nat) list" where
  "entries w = map entry (glossary w)"

text \<open>The usage count of the entry for a (source term, target term) pair, if there is one.\<close>

definition usage :: "env \<Rightarrow> str \<Rightarrow> str \<Rightarrow> nat option" where
  "usage w c e = map_option usage_count (find (same_key c e) (glossary w))"

section \<open>Translation engines\<close>

text \<open>
  The translation services are outside the program. \<open>googletrans.Translator.translate\<close> is a
  function of the text and the two language codes that gives the response (\<open>result.text\<close>,
  \<open>result.src\<close>) or \<open>None\<close> when the call raises. For OpenAI the prompt is a fixed template
  around the text, so the chat completion is a function of the text giving the content of the
  first choice, or \<open>None\<close> when the call or the access to the response raises; the third
  argument of the engine is \<open>re.search(r'Translation:\s*(.+?)(?:\n|$)', content)\<close> as a function
  giving group 1 of the match, if any.
\<close>

record google_response =
  response_text :: str
  response_src :: str

datatype engine =
    GoogleTranslateEngine "(str \<Rightarrow> str \<Rightarrow> str \<Rightarrow> google_response option) option"
  | OpenAITranslationEngine "str option" "(str \<Rightarrow> str option) option" "str \<Rightarrow> str option"

fun is_available :: "engine \<Rightarrow> bool" where
  "is_available (GoogleTranslateEngine translator) \<longleftrightarrow> translator \<noteq> None"
| "is_available (OpenAITranslationEngine api_key client re_search) \<longleftrightarrow>
     client \<noteq> None \<and> api_key \<noteq> None"

fun engine_translate :: "engine \<Rightarrow> env \<Rightarrow> str \<Rightarrow> str \<Rightarrow> str \<Rightarrow> env \<times> TranslationResult" where
  "engine_translate (GoogleTranslateEngine translator) w text src tgt =
     (case translator of
        None \<Rightarrow> (w, TranslationResult3 text text 0.0)
      | Some call \<Rightarrow>
          (case call text (if src = lit ''zh'' then lit ''zh-cn'' else src) tgt of
             None \<Rightarrow> (logger ERROR ''Error in Google Translate'' w, TranslationResult3 text text 0.0)
           | Some result \<Rightarrow>
               (w, \<lparr>original_text = text, translated_text = response_text result,
                    confidence = 0.9, source_lang = response_src result, target_lang = tgt,
                    glossary_matches = []\<rparr>)))"
| "engine_translate (OpenAITranslationEngine api_key client re_search) w text src tgt =
     (case client of
        None \<Rightarrow> (w, TranslationResult3 text text 0.0)
      | Some create \<Rightarrow>
          if api_key = None then (w, TranslationResult3 text text 0.0)
          else (case create text of
             None \<Rightarrow> (logger ERROR ''Error in OpenAI translation'' w, TranslationResult3 text text 0.0)
           | Some content \<Rightarrow>
               (w, \<lparr>original_text = text,
                    translated_text = (case re_search content of Some g \<Rightarrow> strip g | None \<Rightarrow> text),
                    confidence = 0.95, source_lang = lit ''zh'', target_lang = tgt,
                    glossary_matches = []\<rparr>)))"

text \<open>
  The backend fails on a request: the engine is not available, or its call to the service
  raises. These are the paths on which an engine returns \<open>TranslationResult(text, text, 0.0)\<close>.
\<close>

fun backend_fails :: "engine \<Rightarrow> str \<Rightarrow> str \<Rightarrow> str \<Rightarrow> bool" where
  "backend_fails (GoogleTranslateEngine translator) text src tgt \<longleftrightarrow>
     (case translator of
        None \<Rightarrow> True
      | Some call \<Rightarrow> call text (if src = lit ''zh'' then lit ''zh-cn'' else src) tgt = None)"
| "backend_fails (OpenAITranslationEngine api_key client re_search) text src tgt \<longleftrightarrow>
     (case client of None \<Rightarrow> True | Some create \<Rightarrow> api_key = None \<or> create text = None)"

section \<open>TranslationManager\<close>

text \<open>
  Of the configuration, \<open>translate\<close> reads \<open>config['translation']['use_glossary']\<close> (\<open>None\<close>: the
  key is absent, and the default \<open>True\<close> applies). \<open>primary_engine\<close> is \<open>None\<close> when no engine was
  available at construction. The glossary lives in the environment.
\<close>

record TranslationManager =
  config_use_glossary :: "bool option"
  primary_engine :: "engine option"

definition replacements :: "(str \<times> str) list" where
  "replacements =
    [(lit ''Servo motor'', lit ''Servo''),
     (lit ''Motor drive'', lit ''Drive''),
     (lit ''Programmable logic controller'', lit ''PLC''),
     (lit ''Human machine interface'', lit ''HMI''),
     (lit ''Variable frequency drive'', lit ''VFD''),
     (lit ''Input/Output'', lit ''I/O'')]"

definition post_process_translation :: "str \<Rightarrow> str \<Rightarrow> str" where
  "post_process_translation translation original =
     fold (\<lambda>(old, new) processed. str_replace old new processed) replacements translation"

text \<open>
  \<open>translate\<close> in its two steps. \<open>glossary_step\<close> is the glossary lookup: it gives
  \<open>glossary_matches\<close> and \<open>enhanced_translation\<close>, which starts as \<open>None\<close>. \<open>engine_step\<close> is the
  \<open>if\<close>/\<open>elif\<close> that follows: \<open>not enhanced_translation\<close> holds for \<open>None\<close> and for the empty
  string, and then the primary engine is asked, or the text itself is taken when there is no
  engine. The arguments \<open>src\<close>, \<open>tgt\<close> and \<open>use_glossary\<close> have the defaults \<open>'auto'\<close>, \<open>'en'\<close> and
  \<open>True\<close> in the source.
\<close>

definition falsy :: "str option \<Rightarrow> bool" where
  "falsy x \<longleftrightarrow> (case x of None \<Rightarrow> True | Some s \<Rightarrow> s = [])"

definition glossary_step ::
  "TranslationManager \<Rightarrow> env \<Rightarrow> str \<Rightarrow> bool \<Rightarrow> env \<times> str list \<times> str option" where
  "glossary_step m w text use_glossary =
     (if use_glossary \<and> (case config_use_glossary m of None \<Rightarrow> True | Some b \<Rightarrow> b) then
        (case lookup w text of
           (w', []) \<Rightarrow> (w', [], None)
         | (w', best_match # _) \<Rightarrow>
             (logger DEBUG ''Glossary match found'' w',
              [text @ lit '' -> '' @ fst best_match @ lit '' ('' @ fst (snd best_match) @ lit '')''],
              Some (fst best_match)))
      else (w, [], None))"

definition engine_step ::
  "TranslationManager \<Rightarrow> env \<Rightarrow> str \<Rightarrow> str \<Rightarrow> str \<Rightarrow> str option \<Rightarrow> env \<times> str" where
  "engine_step m w text src tgt enhanced_translation =
     (if falsy enhanced_translation then
        (case primary_engine m of
           Some eng \<Rightarrow>
             (case engine_translate eng w text src tgt of
                (w', engine_result) \<Rightarrow> (w', translated_text engine_result))
         | None \<Rightarrow> (w, text))
      else (w, case enhanced_translation of Some s \<Rightarrow> s | None \<Rightarrow> text))"

definition translate ::
  "TranslationManager \<Rightarrow> env \<Rightarrow> str \<Rightarrow> str \<Rightarrow> str \<Rightarrow> bool \<Rightarrow> env \<times> TranslationResult" where
  "translate m w text src tgt use_glossary =
     (case glossary_step m w text use_glossary of
        (w1, matches, enhanced_translation) \<Rightarrow>
          (case engine_step m w1 text src tgt enhanced_translation of
             (w2, enhanced) \<Rightarrow>
               (w2, \<lparr>original_text = text,
                     translated_text = post_process_translation enhanced text,
                     confidence = (if matches \<noteq> [] then 0.95 else 0.8),
                     source_lang = src, target_lang = tgt,
                     glossary_matches = matches\<rparr>)))"

fun translate_batch ::
  "TranslationManager \<Rightarrow> env \<Rightarrow> str list \<Rightarrow> str \<Rightarrow> str \<Rightarrow> env \<times> TranslationResult list" where
  "translate_batch m w [] src tgt = (w, [])"
| "translate_batch m w (text # texts) src tgt =
     (if strip text \<noteq> [] then
        (case translate m w text src tgt True of
           (w1, result) \<Rightarrow>
             (case translate_batch m w1 texts src tgt of
                (w2, results) \<Rightarrow> (w2, result # results)))
      else translate_batch m w texts src tgt)"

text \<open>
  The reading of the specification: \<open>translate\<close> applied to every text of a list in order, each
  call starting from the environment the previous one left.
\<close>

fun translate_each ::
  "TranslationManager \<Rightarrow> env \<Rightarrow> str list \<Rightarrow> str \<Rightarrow> str \<Rightarrow> env \<times> TranslationResult list" where
  "translate_each m w [] src tgt = (w, [])"
| "translate_each m w (text # texts) src tgt =
     (case translate m w text src tgt True of
        (w1, result) \<Rightarrow>
          (case translate_each m w1 texts src tgt of
             (w2, results) \<Rightarrow> (w2, result # results)))"

section \<open>Pipeline coordinator\<close>

text \<open>
  \<open>OCRResult\<close>: the constructor strips the text (field \<open>text\<close> of the source, here
  \<open>ocr_text\<close>). \<open>bbox\<close> is \<open>(x, y, width, height)\<close>.
\<close>

record OCRResult =
  ocr_text :: str
  bbox :: "int \<times> int \<times> int \<times> int"
  ocr_confidence :: real

definition new_OCRResult :: "str \<Rightarrow> int \<times> int \<times> int \<times> int \<Rightarrow> real \<Rightarrow> OCRResult" where
  "new_OCRResult t b c = \<lparr>ocr_text = strip t, bbox = b, ocr_confidence = c\<rparr>"

text \<open>
  A frame is a numpy array; the program reads its \<open>shape\<close> and its \<open>size\<close> (the product of the
  shape) and passes it on. \<open>np.array([])\<close> has shape \<open>(0,)\<close>.
\<close>

record ndarray =
  shape :: "nat list"
  pixels :: "nat list"

definition ndarray_size :: "ndarray \<Rightarrow> nat" where
  "ndarray_size a = prod_list (shape a)"

text \<open>
  The recognition side is outside the program: \<open>OCRManager.preprocess_image\<close> returns an image
  and never raises; \<open>OCRManager.detect_text\<close> gives the detected regions (\<open>None\<close>: the call
  raises). The main window is a Qt widget; of its two methods only whether they return
  (\<open>True\<close>) or raise matters to the coordinator.
\<close>

record OCRManager =
  preprocess_image :: "ndarray \<Rightarrow> ndarray"
  detect_text :: "ndarray \<Rightarrow> OCRResult list option"

record MainWindow =
  add_recent_translation :: "str \<Rightarrow> str \<Rightarrow> bool"
  update_translation_stats :: "nat \<Rightarrow> nat \<Rightarrow> bool"

text \<open>
  The state of \<open>LiveScreenTranslator\<close> that the two callbacks touch: the environment of the
  translation module, the two counters of \<open>self.stats\<close> and the logger of the module.
\<close>

record app =
  world :: env
  texts_detected :: nat
  texts_translated :: nat
  app_log :: "log_record list"

definition app_logger :: "level \<Rightarrow> string \<Rightarrow> app \<Rightarrow> app" where
  "app_logger lv msg a = a\<lparr>app_log := app_log a @ [Log lv msg]\<rparr>"

text \<open>
  \<open>_process_ocr\<close>; the first argument is \<open>config['screen']['min_text_size']\<close> (\<open>None\<close>: absent,
  default 12). \<open>result.bbox[3]\<close> is the height.
\<close>

definition process_ocr :: "int option \<Rightarrow> OCRManager \<Rightarrow> app \<Rightarrow> ndarray \<Rightarrow> app \<times> OCRResult list" where
  "process_ocr cfg_min_text_size ocr_manager a img =
     (case detect_text ocr_manager (preprocess_image ocr_manager img) of
        None \<Rightarrow> (app_logger ERROR ''Error in OCR processing'' a, [])
      | Some ocr_results \<Rightarrow>
          (let min_text_size = (case cfg_min_text_size of None \<Rightarrow> 12 | Some v \<Rightarrow> v);
               filtered_results =
                 filter (\<lambda>result. min_text_size \<le> snd (snd (snd (bbox result))) \<and>
                                   1 < length (strip (ocr_text result))) ocr_results;
               a1 = a\<lparr>texts_detected := texts_detected a + length filtered_results\<rparr>
           in (if filtered_results \<noteq> [] then app_logger DEBUG ''OCR detected text regions'' a1
               else a1,
               filtered_results)))"

text \<open>
  The \<open>for\<close> loop of \<open>_process_translations\<close> over \<open>zip(ocr_results, translation_results)\<close>, with
  its two accumulators; \<open>None\<close> when \<open>add_recent_translation\<close> raises.
\<close>

fun pair_loop ::
  "MainWindow \<Rightarrow> (OCRResult \<times> TranslationResult) list \<Rightarrow> TranslationResult list \<Rightarrow>
   OCRResult list \<Rightarrow> (TranslationResult list \<times> OCRResult list) option" where
  "pair_loop ui [] valid_translations valid_ocr = Some (valid_translations, valid_ocr)"
| "pair_loop ui ((ocr_result, translation_result) # rest) valid_translations valid_ocr =
     (if translated_text translation_result \<noteq> original_text translation_result \<and>
         confidence translation_result > 0.5
      then (if add_recent_translation ui (original_text translation_result)
                 (translated_text translation_result)
            then pair_loop ui rest (valid_translations @ [translation_result])
                   (valid_ocr @ [ocr_result])
            else None)
      else pair_loop ui rest valid_translations valid_ocr)"

text \<open>
  \<open>_process_translations\<close>: the second component is what \<open>translation_completed.emit\<close> sends,
  \<open>(valid_ocr, valid_translations)\<close>, or \<open>None\<close> when nothing is emitted (no input, or an
  exception on the way).
\<close>

definition process_translations ::
  "TranslationManager \<Rightarrow> MainWindow \<Rightarrow> app \<Rightarrow> OCRResult list \<Rightarrow>
   app \<times> (OCRResult list \<times> TranslationResult list) option" where
  "process_translations m ui a ocr_results =
     (if ocr_results = [] then (a, None)
      else case translate_batch m (world a) (map ocr_text ocr_results) (lit ''auto'') (lit ''en'') of
        (w', translation_results) \<Rightarrow>
          (case pair_loop ui (zip ocr_results translation_results) [] [] of
             None \<Rightarrow> (app_logger ERROR ''Error in translation processing'' (a\<lparr>world := w'\<rparr>), None)
           | Some (valid_translations, valid_ocr) \<Rightarrow>
               (let a1 = a\<lparr>world := w',
                           texts_translated := texts_translated a + length valid_translations\<rparr>
                in if update_translation_stats ui (texts_detected a1) (texts_translated a1)
                   then (if valid_translations \<noteq> []
                         then app_logger DEBUG ''Translated texts'' a1 else a1,
                         Some (valid_ocr, valid_translations))
                   else (app_logger ERROR ''Error in translation processing'' a1, None))))"

text \<open>The filter of the coordinator: a translation worth showing.\<close>

definition worth_showing :: "TranslationResult \<Rightarrow> bool" where
  "worth_showing t \<longleftrightarrow> translated_text t \<noteq> original_text t \<and> confidence t > 0.5"

section \<open>RealTimeMonitor\<close>

text \<open>
  The image operations of \<open>_calculate_image_hash\<close> are library calls: \<open>cv2.resize\<close>,
  \<open>cv2.cvtColor(_, COLOR_BGR2GRAY)\<close> and \<open>hash(gray.tobytes())\<close>, each giving \<open>None\<close> when it
  raises. The bare \<open>except\<close> turns every failure into the value 0.
\<close>

record cv2 =
  resize :: "ndarray \<Rightarrow> nat \<times> nat \<Rightarrow> ndarray option"
  cvtColor_BGR2GRAY :: "ndarray \<Rightarrow> ndarray option"
  hash_tobytes :: "ndarray \<Rightarrow> int option"

definition calculate_image_hash :: "cv2 \<Rightarrow> ndarray \<Rightarrow> int" where
  "calculate_image_hash cv img =
     (case resize cv img (32, 32) of
        None \<Rightarrow> 0
      | Some small \<Rightarrow>
          (case (if length (shape small) = 3 then cvtColor_BGR2GRAY cv small else Some small) of
             None \<Rightarrow> 0
           | Some gray \<Rightarrow> (case hash_tobytes cv gray of None \<Rightarrow> 0 | Some h \<Rightarrow> h)))"

text \<open>Some step of the fingerprint computation raises on this frame.\<close>

definition hashing_fails :: "cv2 \<Rightarrow> ndarray \<Rightarrow> bool" where
  "hashing_fails cv img \<longleftrightarrow>
     (case resize cv img (32, 32) of
        None \<Rightarrow> True
      | Some small \<Rightarrow>
          (case (if length (shape small) = 3 then cvtColor_BGR2GRAY cv small else Some small) of
             None \<Rightarrow> True
           | Some gray \<Rightarrow> hash_tobytes cv gray = None))"

text \<open>
  One pass of the \<open>while\<close> loop reads the clock and, when the frame interval has elapsed,
  captures: \<open>tick\<close> holds \<open>time.time()\<close> and what each of the three capture methods returns at
  that moment (an empty array when the capture fails; they do not raise).

  The callbacks are the constructor's arguments (\<open>None\<close>: not given). The recognition callback
  returns the new application state and its results, or \<open>None\<close> for the results when it
  raises; the translation callback returns the new state and whether it returned normally.
  \<open>ocr_calls\<close> records the frames on which the recognition callback was invoked; the program
  does not read it.
\<close>

record tick =
  now :: real
  shot_window :: ndarray
  shot_region :: ndarray
  shot_full_screen :: ndarray

record ('a, 'r) monitor_config =
  frame_interval :: real
  has_target_window :: bool
  has_monitor_regions :: bool
  image_ops :: cv2
  ocr_callback :: "('a \<Rightarrow> ndarray \<Rightarrow> 'a \<times> 'r list option) option"
  translation_callback :: "('a \<Rightarrow> 'r list \<Rightarrow> 'a \<times> bool) option"

record 'a monitor =
  previous_hash :: "int option"
  last_capture_time :: real
  app_state :: 'a
  ocr_calls :: "ndarray list"
  monitor_log :: "log_record list"

definition capture :: "('a, 'r) monitor_config \<Rightarrow> tick \<Rightarrow> ndarray" where
  "capture c k =
     (if has_target_window c then shot_window k
      else if has_monitor_regions c then shot_region k
      else shot_full_screen k)"

definition run_callbacks :: "('a, 'r) monitor_config \<Rightarrow> 'a monitor \<Rightarrow> ndarray \<Rightarrow> 'a monitor" where
  "run_callbacks c st img =
     (case ocr_callback c of
        None \<Rightarrow> st
      | Some ocr \<Rightarrow>
          (case ocr (app_state st) img of
             (a1, None) \<Rightarrow>
               st\<lparr>app_state := a1, ocr_calls := ocr_calls st @ [img],
                  monitor_log := monitor_log st @ [Log ERROR ''Error in monitor loop'']\<rparr>
           | (a1, Some ocr_results) \<Rightarrow>
               (case translation_callback c of
                  None \<Rightarrow> st\<lparr>app_state := a1, ocr_calls := ocr_calls st @ [img]\<rparr>
                | Some tr \<Rightarrow>
                    if ocr_results = []
                    then st\<lparr>app_state := a1, ocr_calls := ocr_calls st @ [img]\<rparr>
                    else (case tr a1 ocr_results of
                       (a2, returned) \<Rightarrow>
                         st\<lparr>app_state := a2, ocr_calls := ocr_calls st @ [img],
                            monitor_log :=
                              (if returned then monitor_log st
                               else monitor_log st @ [Log ERROR ''Error in monitor loop''])\<rparr>))))"

definition monitor_iteration :: "('a, 'r) monitor_config \<Rightarrow> 'a monitor \<Rightarrow> tick \<Rightarrow> 'a monitor" where
  "monitor_iteration c st k =
     (if now k - last_capture_time st < frame_interval c then st
      else let img = capture c k in
        if ndarray_size img = 0 then st
        else let current_hash = calculate_image_hash (image_ops c) img in
          if Some current_hash = previous_hash st then st
          else run_callbacks c
                 (st\<lparr>previous_hash := Some current_hash, last_capture_time := now k\<rparr>) img)"

text \<open>
  The loop runs while \<open>is_monitoring\<close> holds; \<open>stop_monitoring\<close> clears the flag from another
  thread. A run is the list of the passes made before the flag is cleared.
\<close>

definition monitor_loop :: "('a, 'r) monitor_config \<Rightarrow> 'a monitor \<Rightarrow> tick list \<Rightarrow> 'a monitor" where
  "monitor_loop c st ks = foldl (monitor_iteration c) st ks"

text \<open>\<open>_monitor_loop\<close> starts with \<open>last_capture_time = 0\<close> and \<open>previous_hash = None\<close>.\<close>

definition monitor_start :: "'a \<Rightarrow> 'a monitor" where
  "monitor_start a =
     \<lparr>previous_hash = None, last_capture_time = 0, app_state = a, ocr_calls = [],
      monitor_log = []\<rparr>"

text \<open>A pass reaches the fingerprint comparison: the interval has elapsed and the capture is not empty.\<close>

definition fingerprinted :: "('a, 'r) monitor_config \<Rightarrow> 'a monitor \<Rightarrow> tick \<Rightarrow> bool" where
  "fingerprinted c st k \<longleftrightarrow>
     \<not> now k - last_capture_time st < frame_interval c \<and> ndarray_size (capture c k) \<noteq> 0"

section \<open>Ranking and example values\<close>

text \<open>The row that \<open>lookup\<close> ranks first for a term, if the term has a row.\<close>

definition top_ranked :: "env \<Rightarrow> str \<Rightarrow> glossary_row option" where
  "top_ranked w t = (case select_rows (glossary w) t of [] \<Rightarrow> None | best # _ \<Rightarrow> Some best)"

text \<open>A fresh database file that can be read and written, and a manager without any engine.\<close>

definition empty_env :: env where
  "empty_env = \<lparr>glossary = [], seq = 0, status = Available, log = []\<rparr>"

definition no_engine_manager :: TranslationManager where
  "no_engine_manager = \<lparr>config_use_glossary = None, primary_engine = None\<rparr>"

text \<open>A database that holds the one row for the built-in term with target \<open>Start\<close>.\<close>

definition start_row :: glossary_row where
  "start_row = \<lparr>row_id = 1, chinese = [21551, 21160], english = lit ''Start'',
                 category = lit ''automation'', row_confidence = 1, usage_count = 0\<rparr>"

definition start_env :: env where
  "start_env = \<lparr>glossary = [start_row], seq = 1, status = Available, log = []\<rparr>"

text \<open>
  A database with that row and a second one, for another term, that has been looked up three
  times.
\<close>

definition test_row :: glossary_row where
  "test_row = \<lparr>row_id = 2, chinese = [27979, 35797], english = lit ''Test'',
                category = lit ''old'', row_confidence = 0.5, usage_count = 3\<rparr>"

definition two_row_env :: env where
  "two_row_env = \<lparr>glossary = [test_row, start_row\<lparr>row_id := 3\<rparr>], seq = 3, status = Available,
                   log = []\<rparr>"

text \<open>A database whose only row maps a term to the verbose phrase \<open>Servo motor\<close>.\<close>

definition servo_row :: glossary_row where
  "servo_row = \<lparr>row_id = 1, chinese = [20282, 26381, 30005, 26426], english = lit ''Servo motor'',
                 category = lit ''custom'', row_confidence = 1, usage_count = 0\<rparr>"

definition servo_env :: env where
  "servo_env = \<lparr>glossary = [servo_row], seq = 1, status = Available, log = []\<rparr>"

text \<open>A manager whose primary engine is Google Translate with a service call that raises.\<close>

definition failing_google_manager :: TranslationManager where
  "failing_google_manager =
     \<lparr>config_use_glossary = Some True,
      primary_engine = Some (GoogleTranslateEngine (Some (\<lambda>text src tgt. None)))\<rparr>"

text \<open>
  Values for the coordinator and the monitor: a main window whose methods return, three
  recognized regions, image operations that succeed (the fingerprint is the sum of the pixel
  values), image operations whose resize raises, a one-pixel frame, and a monitor whose
  recognition callback counts its invocations in the application state.
\<close>

definition ok_window :: MainWindow where
  "ok_window = \<lparr>add_recent_translation = (\<lambda>original translated. True),
                 update_translation_stats = (\<lambda>detected translated. True)\<rparr>"

definition sample_cv2 :: cv2 where
  "sample_cv2 = \<lparr>resize = (\<lambda>a sz. Some a), cvtColor_BGR2GRAY = (\<lambda>a. Some a),
                  hash_tobytes = (\<lambda>a. Some (int (sum_list (pixels a))))\<rparr>"

definition broken_cv2 :: cv2 where
  "broken_cv2 = \<lparr>resize = (\<lambda>a sz. None), cvtColor_BGR2GRAY = (\<lambda>a. Some a),
                  hash_tobytes = (\<lambda>a. Some (int (sum_list (pixels a))))\<rparr>"

definition pixel_frame :: "nat \<Rightarrow> ndarray" where
  "pixel_frame v = \<lparr>shape = [1, 1], pixels = [v]\<rparr>"

definition sample_tick :: "real \<Rightarrow> nat \<Rightarrow> tick" where
  "sample_tick t v = \<lparr>now = t, shot_window = pixel_frame v, shot_region = pixel_frame v,
                      shot_full_screen = pixel_frame v\<rparr>"

definition counting_config :: "cv2 \<Rightarrow> (nat, unit) monitor_config" where
  "counting_config cv =
     \<lparr>frame_interval = 0.5, has_target_window = False, has_monitor_regions = False,
      image_ops = cv, ocr_callback = Some (\<lambda>a img. (Suc a, Some [])),
      translation_callback = None\<rparr>"

definition sample_app :: app where
  "sample_app = \<lparr>world = start_env, texts_detected = 0, texts_translated = 0, app_log = []\<rparr>"

definition start_region :: OCRResult where
  "start_region = new_OCRResult [21551, 21160] (0, 0, 40, 20) 0.9"

definition unknown_region :: OCRResult where
  "unknown_region = new_OCRResult [26410, 30693, 35789, 27719] (0, 60, 40, 20) 0.9"

definition sample_ocr_manager :: OCRManager where
  "sample_ocr_manager =
     \<lparr>preprocess_image = (\<lambda>a. a),
      detect_text = (\<lambda>a. Some [start_region, new_OCRResult (lit '' x '') (0, 30, 40, 20) 0.9,
                                 unknown_region])\<rparr>"

text \<open>
  The result of translating the built-in term from \<open>start_env\<close>, a result with confidence
  exactly 0.5, and a result whose translated text is its original text.
\<close>

definition start_result :: TranslationResult where
  "start_result =
     \<lparr>original_text = [21551, 21160], translated_text = lit ''Start'', confidence = 0.95,
      source_lang = lit ''auto'', target_lang = lit ''en'',
      glossary_matches = [[21551, 21160] @ lit '' -> Start (automation)'']\<rparr>"

definition half_result :: TranslationResult where
  "half_result = TranslationResult3 [20572, 27490] (lit ''Stop'') 0.5"

definition same_result :: TranslationResult where
  "same_result = TranslationResult3 (lit ''OK'') (lit ''OK'') 0.95"

definition sample_pairs :: "(OCRResult \<times> TranslationResult) list" where
  "sample_pairs =
     [(start_region, start_result),
      (new_OCRResult [20572, 27490] (0, 30, 40, 20) 0.9, half_result),
      (new_OCRResult (lit ''OK'') (0, 60, 40, 20) 0.9, same_result)]"

section \<open>Properties of the glossary operations\<close>

lemma glossary_logger [simp]: "glossary (logger lv msg w) = glossary w"
  and seq_logger [simp]: "seq (logger lv msg w) = seq w"
  and status_logger [simp]: "status (logger lv msg w) = status w"
  and log_logger [simp]: "log (logger lv msg w) = log w @ [Log lv msg]"
  by (simp_all add: logger_def)

lemma fst_insert_or_replace:
  "fst (insert_or_replace (c, e, cat, conf) (tbl, s)) =
     filter (\<lambda>r. \<not> same_key c e r) tbl @
       [\<lparr>row_id = next_id (filter (\<lambda>r. \<not> same_key c e r) tbl) s, chinese = c, english = e,
         category = cat, row_confidence = conf, usage_count = 0\<rparr>]"
  by (simp add: insert_or_replace_def insert_row_def)

lemma add_term_try_accepted:
  "write_accepted w c e cat \<Longrightarrow>
     add_term_try w c e cat conf =
       (case insert_or_replace (c, e, cat, conf) (glossary w, seq w) of
          (tbl, s) \<Rightarrow> Inr (logger INFO ''Added term'' (w\<lparr>glossary := tbl, seq := s\<rparr>)))"
  by (simp add: add_term_try_def write_accepted_def)

lemma add_term_try_refused:
  "\<not> write_accepted w c e cat \<Longrightarrow> \<exists>x. add_term_try w c e cat conf = Inl x"
  by (cases "status w") (auto simp: add_term_try_def write_accepted_def)

lemma add_term_refused:
  "\<not> write_accepted w c e cat \<Longrightarrow>
     add_term w c e cat conf = logger ERROR ''Error adding term'' w"
  using add_term_try_refused [of w c e cat conf] by (auto simp: add_term_def)

lemma glossary_add_term:
  "glossary (add_term w c e cat conf) =
     (if write_accepted w c e cat
      then fst (insert_or_replace (c, e, cat, conf) (glossary w, seq w))
      else glossary w)"
proof (cases "write_accepted w c e cat")
  case True
  then show ?thesis by (auto simp: add_term_def add_term_try_accepted split: prod.splits)
next
  case False
  then show ?thesis by (simp add: add_term_refused)
qed

lemma status_add_term [simp]: "status (add_term w c e cat conf) = status w"
proof (cases "write_accepted w c e cat")
  case True
  then show ?thesis by (auto simp: add_term_def add_term_try_accepted split: prod.splits)
next
  case False
  then show ?thesis by (simp add: add_term_refused)
qed

lemma write_accepted_add_term [simp]:
  "write_accepted (add_term w c0 e0 cat0 conf0) c e cat \<longleftrightarrow> write_accepted w c e cat"
  by (simp add: write_accepted_def)

lemma entries_add_term:
  "entries (add_term w c e cat conf) =
     (if write_accepted w c e cat
      then map entry (filter (\<lambda>r. \<not> same_key c e r) (glossary w)) @ [(c, e, cat, conf, 0)]
      else entries w)"
  by (simp add: entries_def glossary_add_term fst_insert_or_replace entry_def)

lemma find_same_key: "find (same_key c e) tbl = Some r \<Longrightarrow> chinese r = c \<and> english r = e"
  by (induction tbl) (auto simp: same_key_def split: if_splits)

lemma find_update_usage:
  "find (same_key c e) (update_usage tbl t) =
     map_option (\<lambda>r. if chinese r = t then r\<lparr>usage_count := usage_count r + 1\<rparr> else r)
       (find (same_key c e) tbl)"
  by (induction tbl) (auto simp: update_usage_def same_key_def)

lemma usage_lookup:
  "usage (fst (lookup w t)) c e =
     map_option (\<lambda>n. if snd (lookup w t) \<noteq> [] \<and> c = t then n + 1 else n) (usage w c e)"
  by (cases "find (same_key c e) (glossary w)")
     (auto simp: usage_def lookup_def lookup_try_def Let_def find_update_usage
           dest: find_same_key)

lemma fold_insert_or_ignore_prefix:
  "\<exists>ys. fst (fold insert_or_ignore ts (tbl, s)) = tbl @ ys"
proof (induction ts arbitrary: tbl s)
  case Nil
  then show ?case by simp
next
  case (Cons t ts)
  obtain tbl' s' where st: "insert_or_ignore t (tbl, s) = (tbl', s')"
    by (cases "insert_or_ignore t (tbl, s)")
  have "\<exists>zs. tbl' = tbl @ zs"
    using st by (cases t) (auto simp: insert_or_ignore_def insert_row_def split: if_splits)
  then obtain zs where zs: "tbl' = tbl @ zs" ..
  from Cons.IH [of tbl' s'] obtain ys where "fst (fold insert_or_ignore ts (tbl', s')) = tbl' @ ys" ..
  with st zs show ?case by simp
qed

lemma find_append_Some: "find P xs = Some x \<Longrightarrow> find P (xs @ ys) = Some x"
  by (induction xs) (auto split: if_splits)

lemma find_append_None: "find P ys = None \<Longrightarrow> find P (xs @ ys) = find P xs"
  by (induction xs) auto

lemma find_append_None_left: "find P xs = None \<Longrightarrow> find P (xs @ ys) = find P ys"
  by (induction xs) (auto split: if_splits)

lemma find_filter_other: "(\<And>x. P x \<Longrightarrow> Q x) \<Longrightarrow> find P (filter Q xs) = find P xs"
  by (induction xs) auto

lemma find_filter_none: "(\<And>x. P x \<Longrightarrow> \<not> Q x) \<Longrightarrow> find P (filter Q xs) = None"
  by (induction xs) auto

lemma usage_load_default_terms:
  assumes "usage w c e = Some n"
  shows "usage (load_default_terms w) c e = Some n"
proof (cases "status w = Available")
  case False
  then show ?thesis using assms
    by (simp add: load_default_terms_def load_default_terms_try_def usage_def)
next
  case True
  obtain ys where ys: "fst (fold insert_or_ignore default_terms (glossary w, seq w)) = glossary w @ ys"
    using fold_insert_or_ignore_prefix by blast
  from True have "glossary (load_default_terms w) = glossary w @ ys"
    using ys by (auto simp: load_default_terms_def load_default_terms_try_def split: prod.splits)
  with assms show ?thesis
    by (auto simp: usage_def dest: find_append_Some)
qed

lemma usage_add_term_other:
  assumes "(c, e) \<noteq> (c0, e0)"
  shows "usage (add_term w c0 e0 cat conf) c e = usage w c e"
proof -
  have "find (same_key c e) (filter (\<lambda>r. \<not> same_key c0 e0 r) (glossary w)) =
        find (same_key c e) (glossary w)"
    using assms by (intro find_filter_other) (auto simp: same_key_def)
  with assms show ?thesis
    by (auto simp: usage_def glossary_add_term fst_insert_or_replace find_append_None same_key_def)
qed

lemma usage_add_term_same:
  assumes "write_accepted w c e cat"
  shows "usage (add_term w c e cat conf) c e = Some 0"
proof -
  have "find (same_key c e) (filter (\<lambda>r. \<not> same_key c e r) (glossary w)) = None"
    by (intro find_filter_none) simp
  with assms show ?thesis
    by (simp add: usage_def glossary_add_term fst_insert_or_replace find_append_None_left same_key_def)
qed

lemma select_rows_set: "set (select_rows tbl t) = {r \<in> set tbl. chinese r = t}"
  by (simp add: select_rows_def)

lemma select_rows_hd_min:
  assumes "select_rows tbl t = best # rest" "r \<in> set tbl" "chinese r = t"
  shows "rank_key best \<le> rank_key r"
proof -
  have "sorted (map rank_key (select_rows tbl t))"
    by (simp add: select_rows_def)
  then have srt: "sorted (map rank_key (best # rest))"
    by (simp only: assms(1))
  have "r \<in> set (select_rows tbl t)"
    using assms(2,3) by (simp add: select_rows_set)
  then have "r \<in> set (best # rest)"
    by (simp only: assms(1))
  with srt show ?thesis by auto
qed

lemma top_ranked_exists:
  assumes "r \<in> set (glossary w)" "chinese r = t"
  shows "\<exists>best. top_ranked w t = Some best"
proof -
  have "r \<in> set (select_rows (glossary w) t)" using assms by (simp add: select_rows_set)
  then show ?thesis by (cases "select_rows (glossary w) t") (auto simp: top_ranked_def)
qed

lemma top_ranked_props:
  assumes "top_ranked w t = Some best"
  shows "best \<in> set (glossary w)" "chinese best = t"
    "\<forall>r \<in> set (glossary w). chinese r = t \<longrightarrow>
       row_confidence r < row_confidence best \<or>
       (row_confidence r = row_confidence best \<and> usage_count r \<le> usage_count best)"
proof -
  from assms obtain rest where sel: "select_rows (glossary w) t = best # rest"
    by (auto simp: top_ranked_def split: list.splits)
  then have "best \<in> set (select_rows (glossary w) t)" by simp
  then show "best \<in> set (glossary w)" "chinese best = t" by (simp_all add: select_rows_set)
  show "\<forall>r \<in> set (glossary w). chinese r = t \<longrightarrow>
       row_confidence r < row_confidence best \<or>
       (row_confidence r = row_confidence best \<and> usage_count r \<le> usage_count best)"
  proof (intro ballI impI)
    fix r assume "r \<in> set (glossary w)" "chinese r = t"
    then have "rank_key best \<le> rank_key r" using sel by (rule select_rows_hd_min [rotated])
    then show "row_confidence r < row_confidence best \<or>
       (row_confidence r = row_confidence best \<and> usage_count r \<le> usage_count best)"
      by (auto simp: rank_key_def)
  qed
qed

lemma lookup_hit:
  assumes "status w = Available" "bindable t" "top_ranked w t = Some best"
  shows "\<exists>rest. snd (lookup w t) = (english best, category best, row_confidence best) # rest"
  using assms
  by (auto simp: lookup_def lookup_try_def select_glossary_def top_ranked_def Let_def
           split: list.splits)

lemma lookup_miss:
  assumes "top_ranked w t = None"
  shows "snd (lookup w t) = []"
  using assms
  by (auto simp: lookup_def lookup_try_def select_glossary_def top_ranked_def Let_def
           split: list.splits)

section \<open>Properties of strings and of translate\<close>

lemma str_replace_absent: "\<not> occurs_in old s \<Longrightarrow> str_replace old new s = s"
  by (induction s) (auto split: if_splits)

lemma post_process_absent:
  assumes "\<forall>p \<in> set replacements. \<not> occurs_in (fst p) s"
  shows "post_process_translation s original = s"
proof -
  have "(\<forall>p \<in> set ps. \<not> occurs_in (fst p) s) \<Longrightarrow>
        fold (\<lambda>(old, new) processed. str_replace old new processed) ps s = s" for ps
    by (induction ps) (auto simp: str_replace_absent)
  with assms show ?thesis by (simp add: post_process_translation_def)
qed

lemma original_text_translate [simp]:
  "original_text (snd (translate m w t src tgt g)) = t"
  by (simp add: translate_def split: prod.splits)

lemma translate_batch_each:
  "translate_batch m w texts src tgt =
     translate_each m w (filter (\<lambda>t. strip t \<noteq> []) texts) src tgt"
  by (induction texts arbitrary: w) (auto split: prod.splits)

lemma originals_translate_each:
  "map original_text (snd (translate_each m w texts src tgt)) = texts"
proof (induction texts arbitrary: w)
  case Nil
  then show ?case by simp
next
  case (Cons t ts)
  obtain w1 r where tr: "translate m w t src tgt True = (w1, r)"
    by (cases "translate m w t src tgt True")
  then have "original_text r = t"
    using original_text_translate [of m w t src tgt True] by simp
  with tr Cons.IH [of w1] show ?case by (auto split: prod.splits)
qed

lemma originals_translate_batch:
  "map original_text (snd (translate_batch m w texts src tgt)) = filter (\<lambda>t. strip t \<noteq> []) texts"
  by (simp add: translate_batch_each originals_translate_each)

lemma translate_hit:
  assumes "snd (lookup w t) = (e, cat, conf) # rest" "config_use_glossary m \<noteq> Some False"
  shows "glossary_matches (snd (translate m w t src tgt True)) =
           [t @ lit '' -> '' @ e @ lit '' ('' @ cat @ lit '')'']"
    "confidence (snd (translate m w t src tgt True)) = 0.95"
    "e \<noteq> [] \<Longrightarrow> translated_text (snd (translate m w t src tgt True)) = post_process_translation e t"
proof -
  obtain w' where lk: "lookup w t = (w', (e, cat, conf) # rest)"
    using assms(1) by (cases "lookup w t") simp
  have gs: "glossary_step m w t True =
       (logger DEBUG ''Glossary match found'' w',
        [t @ lit '' -> '' @ e @ lit '' ('' @ cat @ lit '')''], Some e)"
    using assms(2) lk by (cases "config_use_glossary m") (simp_all add: glossary_step_def)
  show "glossary_matches (snd (translate m w t src tgt True)) =
           [t @ lit '' -> '' @ e @ lit '' ('' @ cat @ lit '')'']"
    by (simp add: translate_def gs split: prod.splits)
  show "confidence (snd (translate m w t src tgt True)) = 0.95"
    by (simp add: translate_def gs split: prod.splits)
  show "translated_text (snd (translate m w t src tgt True)) = post_process_translation e t"
    if "e \<noteq> []"
    using that by (simp add: translate_def gs engine_step_def falsy_def split: prod.splits)
qed

lemma engine_translate_fails:
  assumes "backend_fails eng t src tgt"
  shows "translated_text (snd (engine_translate eng w t src tgt)) = t \<and>
    confidence (snd (engine_translate eng w t src tgt)) = 0"
proof (cases eng)
  case (GoogleTranslateEngine translator)
  with assms show ?thesis
    by (cases translator) (simp_all add: TranslationResult3_def)
next
  case (OpenAITranslationEngine api_key client re_search)
  with assms show ?thesis
    by (cases client) (auto simp: TranslationResult3_def)
qed

lemma translate_miss:
  assumes "snd (lookup w t) = []"
    "case primary_engine m of None \<Rightarrow> True | Some eng \<Rightarrow> backend_fails eng t src tgt"
  shows "translated_text (snd (translate m w t src tgt g)) = post_process_translation t t"
    "confidence (snd (translate m w t src tgt g)) = 0.8"
    "glossary_matches (snd (translate m w t src tgt g)) = []"
proof -
  obtain w0 where lk: "lookup w t = (w0, [])"
    using assms(1) by (cases "lookup w t") simp
  have "\<exists>w1. glossary_step m w t g = (w1, [], None)"
    by (simp add: glossary_step_def lk)
  then obtain w1 where gs: "glossary_step m w t g = (w1, [], None)" ..
  have es: "snd (engine_step m w1 t src tgt None) = t"
  proof (cases "primary_engine m")
    case None
    then show ?thesis by (simp add: engine_step_def falsy_def)
  next
    case (Some eng)
    with assms(2) have "backend_fails eng t src tgt" by simp
    then have "translated_text (snd (engine_translate eng w1 t src tgt)) = t"
      using engine_translate_fails by blast
    with Some show ?thesis by (auto simp: engine_step_def falsy_def split: prod.splits)
  qed
  show "translated_text (snd (translate m w t src tgt g)) = post_process_translation t t"
    using es by (auto simp: translate_def gs split: prod.splits)
  show "confidence (snd (translate m w t src tgt g)) = 0.8"
    by (simp add: translate_def gs split: prod.splits)
  show "glossary_matches (snd (translate m w t src tgt g)) = []"
    by (simp add: translate_def gs split: prod.splits)
qed

section \<open>Facts about the example values\<close>

lemma status_lookup [simp]: "status (fst (lookup w t)) = status w"
  by (auto simp: lookup_def lookup_try_def Let_def)

lemma top_ranked_start_env: "top_ranked start_env [21551, 21160] = Some start_row"
  by (simp add: top_ranked_def select_rows_def start_env_def start_row_def)

lemma top_ranked_servo_env: "top_ranked servo_env [20282, 26381, 30005, 26426] = Some servo_row"
  by (simp add: top_ranked_def select_rows_def servo_env_def servo_row_def)

lemma top_ranked_start_env_unknown: "top_ranked start_env [26410, 30693, 35789, 27719] = None"
  by (simp add: top_ranked_def select_rows_def start_env_def start_row_def)

lemma no_phrase_in_Start: "\<forall>p \<in> set replacements. \<not> occurs_in (fst p) (lit ''Start'')"
  by code_simp

lemma no_phrase_in_unknown: "\<forall>p \<in> set replacements. \<not> occurs_in (fst p) [26410, 30693, 35789, 27719]"
  by code_simp

lemma post_process_Servo_motor:
  "post_process_translation (lit ''Servo motor'') t = lit ''Servo''"
  unfolding post_process_translation_def by code_simp

lemma lit_Servo_neq: "lit ''Servo'' \<noteq> lit ''Servo motor''"
  by code_simp

lemma bindable_examples:
  "bindable [21551, 21160]" "bindable [20282, 26381, 30005, 26426]" "bindable [27979, 35797]"
  "bindable (lit ''Start'')" "bindable (lit ''Test'')" "bindable (lit ''custom'')"
  "bindable (lit ''automation'')" "\<not> bindable [55296]"
  by code_simp+

lemma default_terms_bindable:
  "list_all (\<lambda>t. bindable (fst t) \<and> bindable (fst (snd t)) \<and> bindable (fst (snd (snd t))))
     default_terms"
  by code_simp

lemma lit_nonempty: "lit ''Start'' \<noteq> []" "lit ''Servo motor'' \<noteq> []"
  by (simp_all add: lit_def)

section \<open>The claims\<close>

text \<open>
  C1 (as amended). For every term \<open>t\<close> with at least one row in a glossary that can be read and
  written (\<open>t\<close> being text that can be bound, as every term stored by \<open>add_term\<close> is), \<open>translate\<close> with the glossary enabled (argument \<open>use_glossary = True\<close>, configuration
  key absent or true) records a glossary hit for the row ranked first (highest confidence, then
  highest usage count) and returns confidence 0.95, whatever the primary engine is or whether
  there is one. When the target term of that row is not empty, the translated text is that
  target term after the substitutions of \<open>_post_process_translation\<close>; it is the target term
  itself when none of the six phrases occurs in it.
\<close>

theorem glossary_precedence:
  assumes "r \<in> set (glossary w)" "chinese r = t" "status w = Available" "bindable t"
    "config_use_glossary m \<noteq> Some False"
  shows "\<exists>best. top_ranked w t = Some best \<and> best \<in> set (glossary w) \<and> chinese best = t \<and>
     (\<forall>r' \<in> set (glossary w). chinese r' = t \<longrightarrow>
        row_confidence r' < row_confidence best \<or>
        (row_confidence r' = row_confidence best \<and> usage_count r' \<le> usage_count best)) \<and>
     glossary_matches (snd (translate m w t src tgt True)) =
       [t @ lit '' -> '' @ english best @ lit '' ('' @ category best @ lit '')''] \<and>
     confidence (snd (translate m w t src tgt True)) = 0.95 \<and>
     original_text (snd (translate m w t src tgt True)) = t \<and>
     (english best \<noteq> [] \<longrightarrow>
        translated_text (snd (translate m w t src tgt True)) =
          post_process_translation (english best) t) \<and>
     (english best \<noteq> [] \<and> (\<forall>p \<in> set replacements. \<not> occurs_in (fst p) (english best)) \<longrightarrow>
        translated_text (snd (translate m w t src tgt True)) = english best)"
proof -
  from assms(1,2) obtain best where best: "top_ranked w t = Some best"
    using top_ranked_exists by blast
  from lookup_hit [OF assms(3,4) best] obtain rest where
    hit: "snd (lookup w t) = (english best, category best, row_confidence best) # rest" ..
  note th = translate_hit [OF hit assms(5), of src tgt]
  have "english best \<noteq> [] \<and> (\<forall>p \<in> set replacements. \<not> occurs_in (fst p) (english best)) \<longrightarrow>
        translated_text (snd (translate m w t src tgt True)) = english best"
    using th(3) post_process_absent by simp
  with best top_ranked_props [OF best] th show ?thesis by simp
qed

theorem glossary_precedence_witness:
  "start_row \<in> set (glossary start_env) \<and> chinese start_row = [21551, 21160] \<and>
   status start_env = Available \<and> bindable [21551, 21160] \<and>
   config_use_glossary no_engine_manager \<noteq> Some False \<and>
   translated_text (snd (translate no_engine_manager start_env [21551, 21160] (lit ''auto'') (lit ''en'') True)) = lit ''Start'' \<and>
   confidence (snd (translate no_engine_manager start_env [21551, 21160] (lit ''auto'') (lit ''en'') True)) = 0.95 \<and>
   glossary_matches (snd (translate no_engine_manager start_env [21551, 21160] (lit ''auto'') (lit ''en'') True)) =
     [[21551, 21160] @ lit '' -> '' @ lit ''Start'' @ lit '' ('' @ lit ''automation'' @ lit '')'']"
proof -
  have h1: "start_row \<in> set (glossary start_env)" by (simp add: start_env_def)
  have h2: "chinese start_row = [21551, 21160]" by (simp add: start_row_def)
  have h3: "status start_env = Available" by (simp add: start_env_def)
  have h4: "config_use_glossary no_engine_manager \<noteq> Some False" by (simp add: no_engine_manager_def)
  have e: "english start_row = lit ''Start''" "category start_row = lit ''automation''"
    by (simp_all add: start_row_def)
  note h5 = bindable_examples(1)
  from glossary_precedence [OF h1 h2 h3 h5 h4, of "lit ''auto''" "lit ''en''"]
  obtain best where b: "top_ranked start_env [21551, 21160] = Some best"
    and gm: "glossary_matches (snd (translate no_engine_manager start_env [21551, 21160] (lit ''auto'') (lit ''en'') True)) =
       [[21551, 21160] @ lit '' -> '' @ english best @ lit '' ('' @ category best @ lit '')'']"
    and cf: "confidence (snd (translate no_engine_manager start_env [21551, 21160] (lit ''auto'') (lit ''en'') True)) = 0.95"
    and tt: "english best \<noteq> [] \<and> (\<forall>p \<in> set replacements. \<not> occurs_in (fst p) (english best)) \<longrightarrow>
        translated_text (snd (translate no_engine_manager start_env [21551, 21160] (lit ''auto'') (lit ''en'') True)) = english best"
    by blast
  from b have best: "best = start_row" by (simp only: top_ranked_start_env option.inject)
  from tt have "translated_text (snd (translate no_engine_manager start_env [21551, 21160] (lit ''auto'') (lit ''en'') True)) = lit ''Start''"
    unfolding best e using no_phrase_in_Start lit_nonempty(1) by blast
  moreover note gm [unfolded best e] cf h1 h2 h3 h4 h5
  ultimately show ?thesis by blast
qed

text \<open>
  C1 as stated fails: the only row for the term has target \<open>Servo motor\<close>, and \<open>translate\<close>
  returns \<open>Servo\<close>.
\<close>

theorem glossary_precedence_counterexample:
  "servo_row \<in> set (glossary servo_env) \<and> chinese servo_row = [20282, 26381, 30005, 26426] \<and>
   top_ranked servo_env [20282, 26381, 30005, 26426] = Some servo_row \<and>
   english servo_row = lit ''Servo motor'' \<and>
   translated_text (snd (translate no_engine_manager servo_env [20282, 26381, 30005, 26426]
     (lit ''auto'') (lit ''en'') True)) = lit ''Servo'' \<and>
   lit ''Servo'' \<noteq> lit ''Servo motor''"
proof -
  have h3: "status servo_env = Available" by (simp add: servo_env_def)
  have h4: "config_use_glossary no_engine_manager \<noteq> Some False" by (simp add: no_engine_manager_def)
  have e: "english servo_row = lit ''Servo motor''" by (simp add: servo_row_def)
  have c: "chinese servo_row = [20282, 26381, 30005, 26426]" by (simp add: servo_row_def)
  have m: "servo_row \<in> set (glossary servo_env)" by (simp add: servo_env_def)
  from lookup_hit [OF h3 bindable_examples(2) top_ranked_servo_env] obtain rest where
    hit: "snd (lookup servo_env [20282, 26381, 30005, 26426]) =
            (lit ''Servo motor'', category servo_row, row_confidence servo_row) # rest"
    unfolding e ..
  from translate_hit(3) [OF hit h4 lit_nonempty(2), of "lit ''auto''" "lit ''en''"]
  have "translated_text (snd (translate no_engine_manager servo_env [20282, 26381, 30005, 26426]
     (lit ''auto'') (lit ''en'') True)) = lit ''Servo''"
    by (simp only: post_process_Servo_motor)
  with e c m top_ranked_servo_env lit_Servo_neq show ?thesis by blast
qed

lemma lookup_start_env_unknown: "snd (lookup start_env [26410, 30693, 35789, 27719]) = []"
  using top_ranked_start_env_unknown by (rule lookup_miss)

lemma lookup_empty_env: "snd (lookup empty_env t) = []"
  by (rule lookup_miss) (simp add: top_ranked_def select_rows_def empty_env_def)

lemma translate_Servo_motor_no_engine:
  "translated_text (snd (translate no_engine_manager empty_env (lit ''Servo motor'') (lit ''auto'') (lit ''en'') True)) = lit ''Servo''"
  "confidence (snd (translate no_engine_manager empty_env (lit ''Servo motor'') (lit ''auto'') (lit ''en'') True)) = 0.8"
  by code_simp+

text \<open>
  C2 (as amended). For every text \<open>t\<close> that misses the glossary (the lookup returns no row, which
  includes a store that fails), if there is no primary engine or the primary engine's backend
  fails on \<open>t\<close>, \<open>translate\<close> returns, without raising, a result with original text \<open>t\<close>, no
  glossary hit, and as translated text \<open>t\<close> after the substitutions of
  \<open>_post_process_translation\<close>: \<open>t\<close> itself when none of the six phrases occurs in it.
\<close>

theorem backend_failure_fallback:
  assumes "snd (lookup w t) = []"
    "case primary_engine m of None \<Rightarrow> True | Some eng \<Rightarrow> backend_fails eng t src tgt"
  shows "original_text (snd (translate m w t src tgt g)) = t \<and>
    glossary_matches (snd (translate m w t src tgt g)) = [] \<and>
    translated_text (snd (translate m w t src tgt g)) = post_process_translation t t \<and>
    ((\<forall>p \<in> set replacements. \<not> occurs_in (fst p) t) \<longrightarrow>
       translated_text (snd (translate m w t src tgt g)) = t)"
  using translate_miss [OF assms, of g] post_process_absent [of t t] by simp

theorem backend_failure_fallback_witness:
  "snd (lookup start_env [26410, 30693, 35789, 27719]) = [] \<and>
   (case primary_engine failing_google_manager of None \<Rightarrow> True
    | Some eng \<Rightarrow> backend_fails eng [26410, 30693, 35789, 27719] (lit ''auto'') (lit ''en'')) \<and>
   original_text (snd (translate failing_google_manager start_env [26410, 30693, 35789, 27719]
     (lit ''auto'') (lit ''en'') True)) = [26410, 30693, 35789, 27719] \<and>
   translated_text (snd (translate failing_google_manager start_env [26410, 30693, 35789, 27719]
     (lit ''auto'') (lit ''en'') True)) = [26410, 30693, 35789, 27719] \<and>
   glossary_matches (snd (translate failing_google_manager start_env [26410, 30693, 35789, 27719]
     (lit ''auto'') (lit ''en'') True)) = []"
proof -
  have h2: "case primary_engine failing_google_manager of None \<Rightarrow> True
    | Some eng \<Rightarrow> backend_fails eng [26410, 30693, 35789, 27719] (lit ''auto'') (lit ''en'')"
    by (simp add: failing_google_manager_def)
  from backend_failure_fallback [OF lookup_start_env_unknown h2, of True]
  show ?thesis using lookup_start_env_unknown h2 no_phrase_in_unknown by blast
qed

text \<open>
  C2 as stated fails: with an empty glossary and no engine, the text \<open>Servo motor\<close> comes back
  as \<open>Servo\<close>, and the confidence of the result is 0.8, not 0.0.
\<close>

theorem backend_failure_fallback_counterexample:
  "snd (lookup empty_env (lit ''Servo motor'')) = [] \<and>
   primary_engine no_engine_manager = None \<and>
   translated_text (snd (translate no_engine_manager empty_env (lit ''Servo motor'')
     (lit ''auto'') (lit ''en'') True)) \<noteq> lit ''Servo motor'' \<and>
   confidence (snd (translate no_engine_manager empty_env (lit ''Servo motor'')
     (lit ''auto'') (lit ''en'') True)) \<noteq> 0.0"
proof -
  have "primary_engine no_engine_manager = None" by (simp add: no_engine_manager_def)
  moreover have "(0.8::real) \<noteq> 0.0" by simp
  ultimately show ?thesis
    using lookup_empty_env [of "lit ''Servo motor''"] lit_Servo_neq
    by (simp only: translate_Servo_motor_no_engine) simp
qed

text \<open>
  C6. \<open>translate_batch\<close> is \<open>translate\<close> applied, in order, to the inputs whose stripped form is
  not empty: its result (and its effect on the environment) is that of translating the list
  without its blank entries, the original texts of the results are exactly the non-blank inputs
  in their order, and there are as many results as non-blank inputs.
\<close>

theorem translate_batch_nonblank:
  "translate_batch m w texts src tgt =
     translate_each m w (filter (\<lambda>t. strip t \<noteq> []) texts) src tgt \<and>
   map original_text (snd (translate_batch m w texts src tgt)) = filter (\<lambda>t. strip t \<noteq> []) texts \<and>
   length (snd (translate_batch m w texts src tgt)) = length (filter (\<lambda>t. strip t \<noteq> []) texts)"
proof -
  have "length (map original_text (snd (translate_batch m w texts src tgt))) =
        length (filter (\<lambda>t. strip t \<noteq> []) texts)"
    by (simp only: originals_translate_batch)
  then show ?thesis
    using translate_batch_each originals_translate_batch by simp
qed

lemma nonblank_scenario:
  "filter (\<lambda>t. strip t \<noteq> []) [[21551, 21160], [], lit ''  '', [26410, 30693, 35789, 27719]] =
     [[21551, 21160], [26410, 30693, 35789, 27719]]"
  by code_simp

theorem translate_batch_nonblank_witness:
  "map original_text (snd (translate_batch no_engine_manager start_env
      [[21551, 21160], [], lit ''  '', [26410, 30693, 35789, 27719]] (lit ''auto'') (lit ''en''))) =
     [[21551, 21160], [26410, 30693, 35789, 27719]] \<and>
   length (snd (translate_batch no_engine_manager start_env
      [[21551, 21160], [], lit ''  '', [26410, 30693, 35789, 27719]] (lit ''auto'') (lit ''en''))) = 2"
proof -
  have two: "length [[21551, 21160], [26410, 30693, 35789, 27719 :: int]] = 2" by simp
  from translate_batch_nonblank [of no_engine_manager start_env
      "[[21551, 21160], [], lit ''  '', [26410, 30693, 35789, 27719]]" "lit ''auto''" "lit ''en''"]
  show ?thesis unfolding nonblank_scenario two by (rule conjunct2)
qed

text \<open>
  C7 (as amended). \<open>add_term\<close> is an upsert keyed by the pair (source term, target term). A
  call that the store accepts (the file can be written and the text can be bound) removes the
  rows of that pair, appends one row with the given category and confidence and usage count 0,
  and leaves every other row as it was, so that there is exactly one row for the pair; a call
  that the store does not accept leaves the table as it was. Calling \<open>add_term\<close> twice with the
  same arguments leaves the glossary entries (every column of the data model, in table order)
  as calling it once does, and after an accepted call with the same pair only the last call's
  category and confidence remain.
\<close>

theorem add_term_upsert:
  "(write_accepted w c e cat \<longrightarrow>
      (\<exists>i. glossary (add_term w c e cat conf) =
         filter (\<lambda>r. \<not> same_key c e r) (glossary w) @
           [\<lparr>row_id = i, chinese = c, english = e, category = cat, row_confidence = conf,
             usage_count = 0\<rparr>]) \<and>
      length (filter (same_key c e) (glossary (add_term w c e cat conf))) = 1 \<and>
      length (filter (same_key c e)
        (glossary (add_term (add_term w c e cat conf) c e cat conf))) = 1 \<and>
      filter (\<lambda>r. \<not> same_key c e r) (glossary (add_term w c e cat conf)) =
        filter (\<lambda>r. \<not> same_key c e r) (glossary w) \<and>
      entries (add_term (add_term w c e cat0 conf0) c e cat conf) =
        entries (add_term w c e cat conf)) \<and>
   (\<not> write_accepted w c e cat \<longrightarrow>
      glossary (add_term w c e cat conf) = glossary w \<and>
      glossary (add_term (add_term w c e cat conf) c e cat conf) = glossary w) \<and>
   entries (add_term (add_term w c e cat conf) c e cat conf) = entries (add_term w c e cat conf)"
proof -
  have g: "\<exists>i. glossary (add_term w c e cat conf) =
         filter (\<lambda>r. \<not> same_key c e r) (glossary w) @
           [\<lparr>row_id = i, chinese = c, english = e, category = cat, row_confidence = conf,
             usage_count = 0\<rparr>]"
    if "write_accepted w c e cat"
    using that by (simp add: glossary_add_term fst_insert_or_replace)
  have n: "length (filter (same_key c e) (glossary (add_term w' c e cat conf))) = 1"
    if "write_accepted w' c e cat" for w'
    using that by (simp add: glossary_add_term fst_insert_or_replace same_key_def)
  have k: "filter (\<lambda>r. \<not> same_key c e r) (glossary (add_term w c e cat conf)) =
        filter (\<lambda>r. \<not> same_key c e r) (glossary w)"
    if "write_accepted w c e cat"
    using that by (simp add: glossary_add_term fst_insert_or_replace same_key_def)
  have l: "entries (add_term (add_term w c e cat0 conf0) c e cat conf) =
        entries (add_term w c e cat conf)"
    if "write_accepted w c e cat"
    using that
    by (simp add: entries_add_term glossary_add_term fst_insert_or_replace same_key_def
          entries_def entry_def)
  have r: "glossary (add_term w' c e cat conf) = glossary w'" if "\<not> write_accepted w' c e cat" for w'
    using that by (simp add: glossary_add_term)
  have i: "entries (add_term (add_term w c e cat conf) c e cat conf) =
      entries (add_term w c e cat conf)"
    by (simp add: entries_add_term glossary_add_term fst_insert_or_replace same_key_def
          entries_def entry_def)
  have r2: "glossary (add_term (add_term w c e cat conf) c e cat conf) = glossary w"
    if "\<not> write_accepted w c e cat"
    using that r [of w] r [of "add_term w c e cat conf"] by simp
  from g n [of w] n [of "add_term w c e cat conf"] k l r [of w] r2 i show ?thesis by simp
qed

lemma write_accepted_two_row_env:
  "write_accepted two_row_env [27979, 35797] (lit ''Test'') (lit ''custom'')"
  by (simp add: write_accepted_def bindable_examples two_row_env_def)

lemma entries_two_row_env:
  "entries two_row_env =
     [([27979, 35797], lit ''Test'', lit ''old'', 0.5, 3),
      ([21551, 21160], lit ''Start'', lit ''automation'', 1, 0)]"
  by (simp add: entries_def entry_def two_row_env_def test_row_def start_row_def)

lemma Start_neq_Test: "[21551, 21160 :: int] \<noteq> [27979, 35797]"
  by simp

lemma entries_add_two_row_env:
  "entries (add_term two_row_env [27979, 35797] (lit ''Test'') (lit ''custom'') 1) =
     [([21551, 21160], lit ''Start'', lit ''automation'', 1, 0),
      ([27979, 35797], lit ''Test'', lit ''custom'', 1, 0)]"
  using write_accepted_two_row_env
  by (simp add: entries_add_term entry_def two_row_env_def test_row_def start_row_def
        same_key_def)

theorem add_term_upsert_witness:
  "write_accepted two_row_env [27979, 35797] (lit ''Test'') (lit ''custom'') \<and>
   entries two_row_env =
     [([27979, 35797], lit ''Test'', lit ''old'', 0.5, 3),
      ([21551, 21160], lit ''Start'', lit ''automation'', 1, 0)] \<and>
   entries (add_term two_row_env [27979, 35797] (lit ''Test'') (lit ''custom'') 1) =
     [([21551, 21160], lit ''Start'', lit ''automation'', 1, 0),
      ([27979, 35797], lit ''Test'', lit ''custom'', 1, 0)] \<and>
   entries (add_term (add_term two_row_env [27979, 35797] (lit ''Test'') (lit ''custom'') 1)
      [27979, 35797] (lit ''Test'') (lit ''custom'') 1) =
     [([21551, 21160], lit ''Start'', lit ''automation'', 1, 0),
      ([27979, 35797], lit ''Test'', lit ''custom'', 1, 0)] \<and>
   length (filter (same_key [27979, 35797] (lit ''Test''))
     (glossary (add_term (add_term two_row_env [27979, 35797] (lit ''Test'') (lit ''custom'') 1)
        [27979, 35797] (lit ''Test'') (lit ''custom'') 1))) = 1"
proof -
  note T = add_term_upsert [of two_row_env "[27979, 35797]" "lit ''Test''" "lit ''custom''" 1
      "lit ''custom''" 1]
  from T have "entries (add_term (add_term two_row_env [27979, 35797] (lit ''Test'')
      (lit ''custom'') 1) [27979, 35797] (lit ''Test'') (lit ''custom'') 1) =
    entries (add_term two_row_env [27979, 35797] (lit ''Test'') (lit ''custom'') 1)"
    by (rule conjunct2 [THEN conjunct2])
  moreover from T write_accepted_two_row_env
  have "length (filter (same_key [27979, 35797] (lit ''Test''))
     (glossary (add_term (add_term two_row_env [27979, 35797] (lit ''Test'') (lit ''custom'') 1)
        [27979, 35797] (lit ''Test'') (lit ''custom'') 1))) = 1"
    by blast
  ultimately show ?thesis
    using write_accepted_two_row_env entries_two_row_env entries_add_two_row_env by simp
qed

text \<open>
  C7 as stated fails: on a locked store, and on an available store for a source term that
  cannot be bound, two calls of \<open>add_term\<close> leave no row for the pair.
\<close>

theorem add_term_upsert_counterexample:
  "length (filter (same_key [27979, 35797] (lit ''Test''))
     (glossary (add_term (add_term (empty_env\<lparr>status := Locked\<rparr>) [27979, 35797] (lit ''Test'')
        (lit ''custom'') 1) [27979, 35797] (lit ''Test'') (lit ''custom'') 1))) = 0 \<and>
   length (filter (same_key [55296] (lit ''Test''))
     (glossary (add_term (add_term empty_env [55296] (lit ''Test'') (lit ''custom'') 1)
        [55296] (lit ''Test'') (lit ''custom'') 1))) = 0"
proof -
  have a: "\<not> write_accepted (empty_env\<lparr>status := Locked\<rparr>) [27979, 35797] (lit ''Test'') (lit ''custom'')"
    by (simp add: write_accepted_def)
  have b: "\<not> write_accepted empty_env [55296] (lit ''Test'') (lit ''custom'')"
    by (simp add: write_accepted_def bindable_examples)
  have e: "glossary (empty_env\<lparr>status := Locked\<rparr>) = []" "glossary empty_env = []"
    by (simp_all add: empty_env_def)
  from a b show ?thesis by (simp add: glossary_add_term e)
qed

text \<open>
  C9. When the store is unavailable or a statement fails (the body of the \<open>try\<close> raises),
  \<open>lookup\<close> returns the empty list, \<open>add_term\<close> drops the write, each logs one error, and the
  table is left as it was; both are total functions that return a value in every case, so
  nothing is raised to the caller. The bodies fail exactly when the store is unavailable, a
  text parameter cannot be bound, or the store is locked while a write is needed.
\<close>

theorem glossary_failure_contained:
  "((status w = Unavailable \<or> \<not> bindable t \<or> lookup_try w t = Inl err) \<longrightarrow>
      lookup w t = (logger ERROR ''Error looking up term'' w, []) \<and>
      snd (lookup w t) = [] \<and>
      glossary (fst (lookup w t)) = glossary w \<and> seq (fst (lookup w t)) = seq w) \<and>
   ((status w \<noteq> Available \<or> \<not> bindable c \<or> \<not> bindable e \<or> \<not> bindable cat \<or>
     add_term_try w c e cat conf = Inl err) \<longrightarrow>
      add_term w c e cat conf = logger ERROR ''Error adding term'' w \<and>
      glossary (add_term w c e cat conf) = glossary w \<and> seq (add_term w c e cat conf) = seq w \<and>
      log (add_term w c e cat conf) = log w @ [Log ERROR ''Error adding term'']) \<and>
   ((\<exists>x. lookup_try w t = Inl x) \<longleftrightarrow>
      status w = Unavailable \<or> \<not> bindable t \<or>
      (status w = Locked \<and> select_glossary (glossary w) t \<noteq> [])) \<and>
   ((\<exists>x. add_term_try w c e cat conf = Inl x) \<longleftrightarrow>
      status w \<noteq> Available \<or> \<not> bindable c \<or> \<not> bindable e \<or> \<not> bindable cat)"
proof -
  have i1: "(\<exists>x. lookup_try w t = Inl x) \<longleftrightarrow>
      status w = Unavailable \<or> \<not> bindable t \<or>
      (status w = Locked \<and> select_glossary (glossary w) t \<noteq> [])"
    by (auto simp: lookup_try_def Let_def)
  have i2: "(\<exists>x. add_term_try w c e cat conf = Inl x) \<longleftrightarrow>
      status w \<noteq> Available \<or> \<not> bindable c \<or> \<not> bindable e \<or> \<not> bindable cat"
    by (cases "status w") (auto simp: add_term_try_def split: prod.splits)
  have l': "lookup_try w t = Inl x \<Longrightarrow> lookup w t = (logger ERROR ''Error looking up term'' w, [])" for x
    by (simp add: lookup_def)
  have a': "add_term_try w c e cat conf = Inl x \<Longrightarrow>
      add_term w c e cat conf = logger ERROR ''Error adding term'' w" for x
    by (simp add: add_term_def)
  have p1: "(status w = Unavailable \<or> \<not> bindable t \<or> lookup_try w t = Inl err) \<longrightarrow>
      lookup w t = (logger ERROR ''Error looking up term'' w, []) \<and>
      snd (lookup w t) = [] \<and>
      glossary (fst (lookup w t)) = glossary w \<and> seq (fst (lookup w t)) = seq w"
    using i1 l' by auto
  have p2: "(status w \<noteq> Available \<or> \<not> bindable c \<or> \<not> bindable e \<or> \<not> bindable cat \<or>
     add_term_try w c e cat conf = Inl err) \<longrightarrow>
      add_term w c e cat conf = logger ERROR ''Error adding term'' w \<and>
      glossary (add_term w c e cat conf) = glossary w \<and> seq (add_term w c e cat conf) = seq w \<and>
      log (add_term w c e cat conf) = log w @ [Log ERROR ''Error adding term'']"
    using i2 a' by auto
  from p1 p2 i1 i2 show ?thesis by blast
qed

theorem glossary_failure_contained_witness:
  "status (start_env\<lparr>status := Locked\<rparr>) \<noteq> Available \<and>
   lookup_try (start_env\<lparr>status := Locked\<rparr>) [21551, 21160] = Inl OperationalError \<and>
   snd (lookup (start_env\<lparr>status := Locked\<rparr>) [21551, 21160]) = [] \<and>
   glossary (fst (lookup (start_env\<lparr>status := Locked\<rparr>) [21551, 21160])) = [start_row] \<and>
   glossary (add_term (start_env\<lparr>status := Locked\<rparr>) [27979, 35797] (lit ''Test'') (lit ''custom'') 1) =
     [start_row] \<and>
   log (add_term (start_env\<lparr>status := Locked\<rparr>) [27979, 35797] (lit ''Test'') (lit ''custom'') 1) =
     [Log ERROR ''Error adding term'']"
proof -
  have h1: "status (start_env\<lparr>status := Locked\<rparr>) \<noteq> Available" by simp
  have h2: "lookup_try (start_env\<lparr>status := Locked\<rparr>) [21551, 21160] = Inl OperationalError"
    by (simp add: lookup_try_def select_glossary_def select_rows_def start_env_def start_row_def
          bindable_examples)
  have g: "glossary start_env = [start_row]" "log start_env = []"
    by (simp_all add: start_env_def)
  from glossary_failure_contained [of "start_env\<lparr>status := Locked\<rparr>" "[21551, 21160]"
      OperationalError "[27979, 35797]" "lit ''Test''" "lit ''custom''" 1]
  show ?thesis using h1 h2 g by simp
qed

text \<open>
  C8 (as amended). A lookup that hits increments by one the usage count of every entry for the
  looked-up source term and leaves the other entries' counts as they were; a lookup that misses
  or fails, and re-seeding the built-in terms, leave every existing entry's count unchanged;
  \<open>add_term\<close> leaves the count of every entry other than the pair it writes unchanged. The
  entry \<open>add_term\<close> writes is a new row: its count is 0, whatever the count of the row it
  replaces was (when the store does not accept the write, the count stays as it was).
\<close>

theorem usage_count_changes:
  "(usage w c e = Some n \<longrightarrow>
      usage (fst (lookup w t)) c e = Some (if snd (lookup w t) \<noteq> [] \<and> c = t then n + 1 else n)) \<and>
   (usage w c e = Some n \<longrightarrow> usage (load_default_terms w) c e = Some n) \<and>
   ((c, e) \<noteq> (c0, e0) \<longrightarrow> usage (add_term w c0 e0 cat conf) c e = usage w c e) \<and>
   (status w = Available \<and> bindable c \<and> bindable e \<and> bindable cat \<longrightarrow>
      usage (add_term w c e cat conf) c e = Some 0) \<and>
   (\<not> (status w = Available \<and> bindable c \<and> bindable e \<and> bindable cat) \<longrightarrow>
      usage (add_term w c e cat conf) c e = usage w c e)"
proof -
  have "\<not> write_accepted w c e cat \<longrightarrow> usage (add_term w c e cat conf) c e = usage w c e"
    by (simp add: usage_def glossary_add_term)
  with usage_lookup [of w t c e] usage_load_default_terms [of w c e n]
    usage_add_term_other [of c e c0 e0 w cat conf] usage_add_term_same [of w c e cat conf]
  show ?thesis by (simp add: write_accepted_def)
qed

lemma usage_start_env: "usage start_env [21551, 21160] (lit ''Start'') = Some 0"
  by (simp add: usage_def start_env_def start_row_def same_key_def)

lemma lookup_start_env_hit: "snd (lookup start_env [21551, 21160]) \<noteq> []"
proof -
  have "status start_env = Available" by (simp add: start_env_def)
  from lookup_hit [OF this bindable_examples(1) top_ranked_start_env] show ?thesis by auto
qed

theorem usage_count_changes_witness:
  "usage start_env [21551, 21160] (lit ''Start'') = Some 0 \<and>
   usage (fst (lookup start_env [21551, 21160])) [21551, 21160] (lit ''Start'') = Some 1 \<and>
   usage (load_default_terms start_env) [21551, 21160] (lit ''Start'') = Some 0 \<and>
   ([21551, 21160 :: int], lit ''Start'') \<noteq> ([27979, 35797], lit ''Test'') \<and>
   usage (add_term start_env [27979, 35797] (lit ''Test'') (lit ''custom'') 1)
     [21551, 21160] (lit ''Start'') = Some 0 \<and>
   status start_env = Available \<and>
   usage (add_term start_env [21551, 21160] (lit ''Start'') (lit ''custom'') 1)
     [21551, 21160] (lit ''Start'') = Some 0"
proof -
  have h: "status start_env = Available" by (simp add: start_env_def)
  have d: "([21551, 21160], lit ''Start'') \<noteq> ([27979, 35797 :: int], lit ''Test'')" by simp
  from usage_count_changes [of start_env "[21551, 21160]" "lit ''Start''" 0 "[21551, 21160]"
      "[27979, 35797]" "lit ''Test''" "lit ''custom''" 1]
  show ?thesis using h d usage_start_env lookup_start_env_hit by (simp add: bindable_examples)
qed

text \<open>
  C8 as stated fails: after one lookup hit the entry has usage count 1; adding the same pair
  again puts it back to 0.
\<close>

theorem usage_count_changes_counterexample:
  "usage (fst (lookup start_env [21551, 21160])) [21551, 21160] (lit ''Start'') = Some 1 \<and>
   usage (add_term (fst (lookup start_env [21551, 21160])) [21551, 21160] (lit ''Start'')
      (lit ''automation'') 1) [21551, 21160] (lit ''Start'') = Some 0"
proof -
  have "write_accepted (fst (lookup start_env [21551, 21160])) [21551, 21160] (lit ''Start'')
      (lit ''automation'')"
    by (simp add: write_accepted_def bindable_examples start_env_def)
  then have "usage (add_term (fst (lookup start_env [21551, 21160])) [21551, 21160] (lit ''Start'')
      (lit ''automation'') 1) [21551, 21160] (lit ''Start'') = Some 0"
    by (rule usage_add_term_same)
  moreover have "usage (fst (lookup start_env [21551, 21160])) [21551, 21160] (lit ''Start'') = Some 1"
    using lookup_start_env_hit by (simp add: usage_lookup usage_start_env)
  ultimately show ?thesis by simp
qed

section \<open>Properties of the coordinator\<close>

lemma pair_loop_Some:
  "pair_loop ui ps vt vo = Some (vt', vo') \<Longrightarrow>
     vt' = vt @ map snd (filter (\<lambda>p. worth_showing (snd p)) ps) \<and>
     vo' = vo @ map fst (filter (\<lambda>p. worth_showing (snd p)) ps)"
proof (induction ps arbitrary: vt vo)
  case Nil
  then show ?case by simp
next
  case (Cons p ps)
  obtain o' t where p: "p = (o', t)" by (cases p)
  show ?case
  proof (cases "worth_showing t")
    case True
    with Cons.prems p have "pair_loop ui ps (vt @ [t]) (vo @ [o']) = Some (vt', vo')"
      by (simp add: worth_showing_def split: if_splits)
    from Cons.IH [OF this] True p show ?thesis by simp
  next
    case False
    with Cons.prems p have "pair_loop ui ps vt vo = Some (vt', vo')"
      by (auto simp: worth_showing_def split: if_splits)
    from Cons.IH [OF this] False p show ?thesis by simp
  qed
qed

lemma pair_loop_zip:
  assumes "pair_loop ui ps [] [] = Some (vt, vo)"
  shows "zip vo vt = filter (\<lambda>p. worth_showing (snd p)) ps"
  using pair_loop_Some [OF assms] by (simp add: zip_map_fst_snd)

lemma process_translations_Some:
  assumes "snd (process_translations m ui a rs) = Some (vo, vt)"
  shows "pair_loop ui (zip rs (snd (translate_batch m (world a) (map ocr_text rs) (lit ''auto'') (lit ''en'')))) [] []
           = Some (vt, vo)"
  using assms
  by (auto simp: process_translations_def Let_def split: if_splits prod.splits option.splits)

lemma process_ocr_nonblank:
  "r \<in> set (snd (process_ocr cfg ocr a img)) \<Longrightarrow> 1 < length (strip (ocr_text r))"
  by (auto simp: process_ocr_def Let_def split: option.splits)

lemma zip_aligned:
  assumes "map f ys = map g xs" "(x, y) \<in> set (zip xs ys)"
  shows "f y = g x"
proof -
  from assms(2) obtain i where i: "i < length xs" "i < length ys" "xs ! i = x" "ys ! i = y"
    by (auto simp: set_zip)
  from assms(1) have "map f ys ! i = map g xs ! i" by simp
  with i show ?thesis by simp
qed

lemma aligned_emission:
  assumes nb: "\<forall>r \<in> set rs. strip (ocr_text r) \<noteq> []"
    and em: "snd (process_translations m ui a rs) = Some (vo, vt)"
  shows "map original_text vt = map ocr_text vo"
proof -
  let ?trs = "snd (translate_batch m (world a) (map ocr_text rs) (lit ''auto'') (lit ''en''))"
  have "filter (\<lambda>t. strip t \<noteq> []) (map ocr_text rs) = map ocr_text rs"
    using nb by (simp add: filter_map o_def)
  then have orig: "map original_text ?trs = map ocr_text rs"
    by (simp add: originals_translate_batch)
  have al: "original_text (snd p) = ocr_text (fst p)" if "p \<in> set (zip rs ?trs)" for p
    using zip_aligned [OF orig, of "fst p" "snd p"] that by simp
  from pair_loop_Some [OF process_translations_Some [OF em]]
  have vt: "vt = map snd (filter (\<lambda>p. worth_showing (snd p)) (zip rs ?trs))"
    and vo: "vo = map fst (filter (\<lambda>p. worth_showing (snd p)) (zip rs ?trs))"
    by simp_all
  show ?thesis unfolding vt vo using al by (simp add: o_def)
qed

section \<open>Properties of the monitor loop\<close>

lemma hashing_fails_zero: "hashing_fails cv f \<Longrightarrow> calculate_image_hash cv f = 0"
  by (auto simp: hashing_fails_def calculate_image_hash_def split: option.splits if_splits)

lemma hashing_succeeds:
  assumes "\<not> hashing_fails cv f"
  shows "\<exists>small gray h. resize cv f (32, 32) = Some small \<and>
       (if length (shape small) = 3 then cvtColor_BGR2GRAY cv small else Some small) = Some gray \<and>
       hash_tobytes cv gray = Some h \<and> calculate_image_hash cv f = h"
proof -
  from assms obtain small where s: "resize cv f (32, 32) = Some small"
    by (cases "resize cv f (32, 32)") (simp_all add: hashing_fails_def)
  let ?conv = "if length (shape small) = 3 then cvtColor_BGR2GRAY cv small else Some small"
  from assms s obtain gray where g: "?conv = Some gray"
    by (cases ?conv) (simp_all add: hashing_fails_def)
  from assms s g obtain h where h: "hash_tobytes cv gray = Some h"
    by (cases "hash_tobytes cv gray") (simp_all add: hashing_fails_def)
  have "calculate_image_hash cv f = h"
    by (simp add: calculate_image_hash_def s g h)
  with s g h show ?thesis by blast
qed

lemma run_callbacks_fields [simp]:
  "previous_hash (run_callbacks c st img) = previous_hash st"
  "last_capture_time (run_callbacks c st img) = last_capture_time st"
  by (auto simp: run_callbacks_def split: option.splits prod.splits)

lemma run_callbacks_ocr_calls:
  "ocr_calls (run_callbacks c st img) =
     ocr_calls st @ (if ocr_callback c = None then [] else [img])"
  by (auto simp: run_callbacks_def split: option.splits prod.splits)

lemma iteration_skips: "\<not> fingerprinted c st k \<Longrightarrow> monitor_iteration c st k = st"
  by (auto simp: fingerprinted_def monitor_iteration_def Let_def)

lemma iteration_sets_hash:
  "fingerprinted c st k \<Longrightarrow>
     previous_hash (monitor_iteration c st k) =
       Some (calculate_image_hash (image_ops c) (capture c k))"
  by (auto simp: fingerprinted_def monitor_iteration_def Let_def)

lemma iteration_same_hash:
  "previous_hash st = Some (calculate_image_hash (image_ops c) (capture c k)) \<Longrightarrow>
     monitor_iteration c st k = st"
  by (simp add: monitor_iteration_def Let_def)

lemma iteration_ocr_calls:
  "length (ocr_calls (monitor_iteration c st k)) \<le> length (ocr_calls st) + 1"
  by (simp add: monitor_iteration_def Let_def run_callbacks_ocr_calls)

lemma second_frame_discarded:
  assumes "calculate_image_hash (image_ops c) (capture c k1) =
           calculate_image_hash (image_ops c) (capture c k2)"
    "fingerprinted c st k1"
  shows "monitor_iteration c (monitor_iteration c st k1) k2 = monitor_iteration c st k1"
  using iteration_sets_hash [OF assms(2)] assms(1) by (intro iteration_same_hash) simp


text \<open>
  C4. The coordinator emits exactly the (recognized, translated) pairs, in order, whose
  translated text differs from the original text and whose confidence is strictly greater than
  0.5: every emitted translation passes both tests, and a pair whose translated text equals its
  original text, or whose confidence is exactly 0.5, contributes nothing to the emission.
\<close>

theorem emission_filter:
  "(pair_loop ui ps [] [] = Some (vt, vo) \<longrightarrow>
      zip vo vt =
        filter (\<lambda>p. translated_text (snd p) \<noteq> original_text (snd p) \<and> confidence (snd p) > 0.5) ps \<and>
      (\<forall>t \<in> set vt. translated_text t \<noteq> original_text t \<and> confidence t > 0.5)) \<and>
   (snd (process_translations m ui a rs) = Some (vo', vt') \<longrightarrow>
      zip vo' vt' =
        filter (\<lambda>p. translated_text (snd p) \<noteq> original_text (snd p) \<and> confidence (snd p) > 0.5)
          (zip rs (snd (translate_batch m (world a) (map ocr_text rs) (lit ''auto'') (lit ''en'')))) \<and>
      (\<forall>t \<in> set vt'. translated_text t \<noteq> original_text t \<and> confidence t > 0.5)) \<and>
   (translated_text t = original_text t \<or> confidence t = 0.5 \<longrightarrow>
      pair_loop ui ((r, t) # ps) [] [] = pair_loop ui ps [] [])"
proof -
  have a: "zip xo xt =
        filter (\<lambda>p. translated_text (snd p) \<noteq> original_text (snd p) \<and> confidence (snd p) > 0.5) qs \<and>
      (\<forall>t \<in> set xt. translated_text t \<noteq> original_text t \<and> confidence t > 0.5)"
    if "pair_loop ui qs [] [] = Some (xt, xo)" for qs xt xo
  proof -
    from pair_loop_Some [OF that]
    have "xt = map snd (filter (\<lambda>p. worth_showing (snd p)) qs)" by simp
    then have "\<forall>t \<in> set xt. worth_showing t" by auto
    with pair_loop_zip [OF that] show ?thesis by (simp add: worth_showing_def)
  qed
  have c: "translated_text t = original_text t \<or> confidence t = 0.5 \<longrightarrow>
      pair_loop ui ((r, t) # ps) [] [] = pair_loop ui ps [] []"
    by auto
  from a [of ps vt vo] a [OF process_translations_Some [of m ui a rs vo' vt']] c
  show ?thesis by blast
qed

text \<open>
  C5. What \<open>_process_ocr\<close> returns has no blank text (every stripped text is longer than one
  code point), and for recognized regions without blank text every emission of
  \<open>_process_translations\<close> is two lists of equal length in which the i-th translation's original
  text is the i-th region's text; so this holds for every emission made from the result of
  \<open>_process_ocr\<close>, which is what the monitor loop hands over. The two lists have equal length
  for any input.
\<close>

theorem emission_pairs_aligned:
  "(\<forall>r \<in> set (snd (process_ocr cfg ocr a0 img)). 1 < length (strip (ocr_text r))) \<and>
   ((\<forall>r \<in> set rs. strip (ocr_text r) \<noteq> []) \<and>
    snd (process_translations m ui a rs) = Some (vo, vt) \<longrightarrow>
      length vo = length vt \<and> map original_text vt = map ocr_text vo \<and>
      (\<forall>i < length vt. original_text (vt ! i) = ocr_text (vo ! i))) \<and>
   (snd (process_translations m ui (fst (process_ocr cfg ocr a0 img))
           (snd (process_ocr cfg ocr a0 img))) = Some (vo', vt') \<longrightarrow>
      length vo' = length vt' \<and> map original_text vt' = map ocr_text vo' \<and>
      (\<forall>i < length vt'. original_text (vt' ! i) = ocr_text (vo' ! i))) \<and>
   (snd (process_translations m ui a rs) = Some (vo, vt) \<longrightarrow> length vo = length vt)"
proof -
  have al: "length xo = length xt \<and> map original_text xt = map ocr_text xo \<and>
      (\<forall>i < length xt. original_text (xt ! i) = ocr_text (xo ! i))"
    if nb: "\<forall>r \<in> set xs. strip (ocr_text r) \<noteq> []"
      and em: "snd (process_translations m ui b xs) = Some (xo, xt)" for b xs xo xt
  proof -
    have eq: "map original_text xt = map ocr_text xo" using nb em by (rule aligned_emission)
    then have len: "length xo = length xt" by (metis length_map)
    have "original_text (xt ! i) = ocr_text (xo ! i)" if "i < length xt" for i
    proof -
      from eq have "map original_text xt ! i = map ocr_text xo ! i" by simp
      with that len show ?thesis by simp
    qed
    with eq len show ?thesis by blast
  qed
  have nb: "\<forall>r \<in> set (snd (process_ocr cfg ocr a0 img)). 1 < length (strip (ocr_text r))"
    using process_ocr_nonblank by blast
  then have nb': "\<forall>r \<in> set (snd (process_ocr cfg ocr a0 img)). strip (ocr_text r) \<noteq> []"
    by auto
  have len: "length vo = length vt" if "snd (process_translations m ui a rs) = Some (vo, vt)"
    using pair_loop_Some [OF process_translations_Some [OF that]] by simp
  from al [of rs a vo vt] al [OF nb', of "fst (process_ocr cfg ocr a0 img)" vo' vt'] nb len
  show ?thesis by blast
qed

text \<open>
  C3. For two passes of the loop whose captured frames have equal fingerprints, the recognition
  callback is invoked at most once over the two passes; and when the first frame reached the
  fingerprint comparison, the second pass changes nothing at all: no callback runs and the
  state of the monitor and of the application is the one the first pass left.
\<close>

theorem identical_fingerprint_gating:
  assumes "calculate_image_hash (image_ops c) (capture c k1) =
           calculate_image_hash (image_ops c) (capture c k2)"
  shows "length (ocr_calls (monitor_loop c st [k1, k2])) \<le> length (ocr_calls st) + 1 \<and>
    (fingerprinted c st k1 \<longrightarrow>
       monitor_loop c st [k1, k2] = monitor_loop c st [k1] \<and>
       ocr_calls (monitor_loop c st [k1, k2]) = ocr_calls (monitor_loop c st [k1]) \<and>
       app_state (monitor_loop c st [k1, k2]) = app_state (monitor_loop c st [k1]))"
proof (cases "fingerprinted c st k1")
  case True
  from second_frame_discarded [OF assms True]
  have "monitor_loop c st [k1, k2] = monitor_loop c st [k1]"
    by (simp add: monitor_loop_def)
  moreover have "length (ocr_calls (monitor_loop c st [k1])) \<le> length (ocr_calls st) + 1"
    using iteration_ocr_calls [of c st k1] by (simp add: monitor_loop_def)
  ultimately show ?thesis by simp
next
  case False
  then have "monitor_loop c st [k1, k2] = monitor_iteration c st k2"
    by (simp add: monitor_loop_def iteration_skips)
  with False iteration_ocr_calls [of c st k2] show ?thesis by simp
qed

text \<open>
  C10. \<open>_calculate_image_hash\<close> returns an integer for every frame: 0 whenever a step of the
  computation raises, and the hash of the converted image otherwise. Two frames on which the
  computation fails therefore have the same fingerprint, and when they come in consecutive
  passes that reach the comparison, the second pass leaves the state as the first left it: the
  frame is dropped as unchanged.
\<close>

theorem fingerprint_total:
  "(hashing_fails cv f \<longrightarrow> calculate_image_hash cv f = 0) \<and>
   (\<not> hashing_fails cv f \<longrightarrow>
      (\<exists>small gray h. resize cv f (32, 32) = Some small \<and>
         (if length (shape small) = 3 then cvtColor_BGR2GRAY cv small else Some small) = Some gray \<and>
         hash_tobytes cv gray = Some h \<and> calculate_image_hash cv f = h)) \<and>
   (hashing_fails cv f \<and> hashing_fails cv f' \<longrightarrow>
      calculate_image_hash cv f = calculate_image_hash cv f') \<and>
   (hashing_fails (image_ops c) (capture c k1) \<and> hashing_fails (image_ops c) (capture c k2) \<and>
    fingerprinted c st k1 \<longrightarrow>
      monitor_loop c st [k1, k2] = monitor_loop c st [k1] \<and>
      previous_hash (monitor_loop c st [k1, k2]) = Some 0)"
proof -
  have d: "monitor_loop c st [k1, k2] = monitor_loop c st [k1] \<and>
      previous_hash (monitor_loop c st [k1, k2]) = Some 0"
    if f1: "hashing_fails (image_ops c) (capture c k1)"
      and f2: "hashing_fails (image_ops c) (capture c k2)"
      and fp: "fingerprinted c st k1"
  proof -
    from f1 f2 have eq: "calculate_image_hash (image_ops c) (capture c k1) =
           calculate_image_hash (image_ops c) (capture c k2)"
      by (simp add: hashing_fails_zero)
    from second_frame_discarded [OF eq fp] iteration_sets_hash [OF fp] f1
    show ?thesis by (simp add: monitor_loop_def hashing_fails_zero)
  qed
  have p1: "hashing_fails cv f \<longrightarrow> calculate_image_hash cv f = 0"
    using hashing_fails_zero by blast
  have p2: "\<not> hashing_fails cv f \<longrightarrow>
      (\<exists>small gray h. resize cv f (32, 32) = Some small \<and>
         (if length (shape small) = 3 then cvtColor_BGR2GRAY cv small else Some small) = Some gray \<and>
         hash_tobytes cv gray = Some h \<and> calculate_image_hash cv f = h)"
    using hashing_succeeds [of cv f] by (rule impI)
  have p3: "hashing_fails cv f \<and> hashing_fails cv f' \<longrightarrow>
      calculate_image_hash cv f = calculate_image_hash cv f'"
    by (simp add: hashing_fails_zero)
  have p4: "hashing_fails (image_ops c) (capture c k1) \<and> hashing_fails (image_ops c) (capture c k2) \<and>
    fingerprinted c st k1 \<longrightarrow>
      monitor_loop c st [k1, k2] = monitor_loop c st [k1] \<and>
      previous_hash (monitor_loop c st [k1, k2]) = Some 0"
    using d by blast
  from p1 p2 p3 p4 show ?thesis by (intro conjI)
qed


lemma sample_pair_loop:
  "pair_loop ok_window sample_pairs [] [] = Some ([start_result], [start_region])"
  by code_simp

lemma sample_process_ocr:
  "snd (process_ocr None sample_ocr_manager sample_app (pixel_frame 1)) =
     [start_region, unknown_region]"
  by code_simp

lemma sample_emission:
  "snd (process_translations no_engine_manager ok_window sample_app
     [start_region, unknown_region]) = Some ([start_region], [start_result])"
  by code_simp

lemma sample_pipeline:
  "snd (process_translations no_engine_manager ok_window
          (fst (process_ocr None sample_ocr_manager sample_app (pixel_frame 1)))
          (snd (process_ocr None sample_ocr_manager sample_app (pixel_frame 1)))) =
   Some ([start_region], [start_result])"
  by code_simp

lemma sample_nonblank:
  "\<forall>r \<in> set [start_region, unknown_region]. strip (ocr_text r) \<noteq> []"
  by code_simp

lemma sample_results:
  "translated_text start_result \<noteq> original_text start_result \<and> confidence start_result > 0.5"
  "confidence half_result = 0.5"
  "translated_text same_result = original_text same_result"
  "map original_text [start_result] = map ocr_text [start_region]"
  by code_simp+

theorem emission_filter_witness:
  "pair_loop ok_window sample_pairs [] [] = Some ([start_result], [start_region]) \<and>
   snd (process_translations no_engine_manager ok_window sample_app
     [start_region, unknown_region]) = Some ([start_region], [start_result]) \<and>
   translated_text start_result \<noteq> original_text start_result \<and>
   confidence start_result > 0.5 \<and>
   confidence half_result = 0.5 \<and>
   pair_loop ok_window [(unknown_region, half_result)] [] [] = Some ([], [])"
proof -
  note T = emission_filter [of ok_window sample_pairs "[start_result]" "[start_region]"
     no_engine_manager sample_app "[start_region, unknown_region]" "[start_region]"
     "[start_result]" half_result unknown_region]
  note U = emission_filter [of ok_window "[]" "[]" "[]" no_engine_manager sample_app "[]" "[]"
     "[]" half_result unknown_region]
  from T have "pair_loop ok_window sample_pairs [] [] = Some ([start_result], [start_region]) \<longrightarrow>
      zip [start_region] [start_result] =
        filter (\<lambda>p. translated_text (snd p) \<noteq> original_text (snd p) \<and> confidence (snd p) > 0.5)
          sample_pairs \<and>
      (\<forall>t \<in> set [start_result]. translated_text t \<noteq> original_text t \<and> confidence t > 0.5)"
    by (rule conjunct1)
  with sample_pair_loop
  have "\<forall>t \<in> set [start_result]. translated_text t \<noteq> original_text t \<and> confidence t > 0.5"
    by simp
  then have w: "translated_text start_result \<noteq> original_text start_result"
    "confidence start_result > 0.5"
    by simp_all
  from U have "translated_text half_result = original_text half_result \<or>
      confidence half_result = 0.5 \<longrightarrow>
      pair_loop ok_window [(unknown_region, half_result)] [] [] = pair_loop ok_window [] [] []"
    by (rule conjunct2 [THEN conjunct2])
  with sample_results(2)
  have "pair_loop ok_window [(unknown_region, half_result)] [] [] = pair_loop ok_window [] [] []"
    by blast
  then have "pair_loop ok_window [(unknown_region, half_result)] [] [] = Some ([], [])"
    by (simp only: pair_loop.simps(1))
  with sample_pair_loop sample_emission w sample_results(2) show ?thesis by blast
qed

theorem emission_pairs_aligned_witness:
  "1 < length (strip (ocr_text start_region)) \<and> 1 < length (strip (ocr_text unknown_region)) \<and>
   snd (process_translations no_engine_manager ok_window
          (fst (process_ocr None sample_ocr_manager sample_app (pixel_frame 1)))
          (snd (process_ocr None sample_ocr_manager sample_app (pixel_frame 1)))) =
     Some ([start_region], [start_result]) \<and>
   strip (ocr_text start_region) \<noteq> [] \<and> strip (ocr_text unknown_region) \<noteq> [] \<and>
   snd (process_translations no_engine_manager ok_window sample_app
     [start_region, unknown_region]) = Some ([start_region], [start_result]) \<and>
   map original_text [start_result] = map ocr_text [start_region] \<and>
   length [start_region] = length [start_result]"
proof -
  note T = emission_pairs_aligned [of None sample_ocr_manager sample_app "pixel_frame 1"
     "[start_region, unknown_region]" no_engine_manager ok_window sample_app
     "[start_region]" "[start_result]" "[start_region]" "[start_result]"]
  from T have "\<forall>r \<in> set (snd (process_ocr None sample_ocr_manager sample_app (pixel_frame 1))).
      1 < length (strip (ocr_text r))"
    by (rule conjunct1)
  then have long: "1 < length (strip (ocr_text start_region))"
    "1 < length (strip (ocr_text unknown_region))"
    unfolding sample_process_ocr by simp_all
  from T have "snd (process_translations no_engine_manager ok_window
          (fst (process_ocr None sample_ocr_manager sample_app (pixel_frame 1)))
          (snd (process_ocr None sample_ocr_manager sample_app (pixel_frame 1)))) =
     Some ([start_region], [start_result]) \<longrightarrow>
      length [start_region] = length [start_result] \<and>
      map original_text [start_result] = map ocr_text [start_region] \<and>
      (\<forall>i < length [start_result]. original_text ([start_result] ! i) = ocr_text ([start_region] ! i))"
    by (rule conjunct2 [THEN conjunct2, THEN conjunct1])
  with sample_pipeline have "length [start_region] = length [start_result] \<and>
      map original_text [start_result] = map ocr_text [start_region]"
    by blast
  moreover from sample_nonblank have "strip (ocr_text start_region) \<noteq> []"
    "strip (ocr_text unknown_region) \<noteq> []"
    by simp_all
  ultimately show ?thesis using long sample_pipeline sample_emission by blast
qed

lemma sample_run:
  "monitor_loop (counting_config cv) (monitor_start 0) [sample_tick 1 7] =
     \<lparr>previous_hash = Some (calculate_image_hash cv (pixel_frame 7)), last_capture_time = 1,
      app_state = Suc 0, ocr_calls = [pixel_frame 7], monitor_log = []\<rparr>"
  by (simp add: monitor_loop_def monitor_iteration_def run_callbacks_def counting_config_def
        sample_tick_def pixel_frame_def monitor_start_def capture_def ndarray_size_def Let_def)

lemma sample_fingerprinted:
  "fingerprinted (counting_config cv) (monitor_start 0) (sample_tick 1 v)"
  by (simp add: fingerprinted_def counting_config_def sample_tick_def pixel_frame_def
        monitor_start_def capture_def ndarray_size_def)

lemma sample_capture: "capture (counting_config cv) (sample_tick t v) = pixel_frame v"
  "image_ops (counting_config cv) = cv"
  by (simp_all add: counting_config_def sample_tick_def capture_def)

theorem identical_fingerprint_gating_witness:
  "calculate_image_hash (image_ops (counting_config sample_cv2))
       (capture (counting_config sample_cv2) (sample_tick 1 7)) =
     calculate_image_hash (image_ops (counting_config sample_cv2))
       (capture (counting_config sample_cv2) (sample_tick 2 7)) \<and>
   fingerprinted (counting_config sample_cv2) (monitor_start 0) (sample_tick 1 7) \<and>
   ocr_calls (monitor_loop (counting_config sample_cv2) (monitor_start 0)
     [sample_tick 1 7, sample_tick 2 7]) = [pixel_frame 7] \<and>
   app_state (monitor_loop (counting_config sample_cv2) (monitor_start 0)
     [sample_tick 1 7, sample_tick 2 7]) = 1"
proof -
  have eq: "calculate_image_hash (image_ops (counting_config sample_cv2))
       (capture (counting_config sample_cv2) (sample_tick 1 7)) =
     calculate_image_hash (image_ops (counting_config sample_cv2))
       (capture (counting_config sample_cv2) (sample_tick 2 7))"
    by (simp add: sample_capture)
  from identical_fingerprint_gating [OF eq, of "monitor_start 0"]
  show ?thesis using eq sample_fingerprinted [of sample_cv2 7] by (simp add: sample_run)
qed

lemma broken_hashing: "hashing_fails broken_cv2 f"
  by (simp add: hashing_fails_def broken_cv2_def)

lemma sample_hashing:
  "\<not> hashing_fails sample_cv2 (pixel_frame 7)"
  "calculate_image_hash sample_cv2 (pixel_frame 7) = 7"
  by (simp_all add: hashing_fails_def calculate_image_hash_def sample_cv2_def pixel_frame_def)

theorem fingerprint_total_witness:
  "hashing_fails (image_ops (counting_config broken_cv2))
     (capture (counting_config broken_cv2) (sample_tick 1 7)) \<and>
   hashing_fails (image_ops (counting_config broken_cv2))
     (capture (counting_config broken_cv2) (sample_tick 2 9)) \<and>
   fingerprinted (counting_config broken_cv2) (monitor_start 0) (sample_tick 1 7) \<and>
   calculate_image_hash broken_cv2 (pixel_frame 7) = 0 \<and>
   calculate_image_hash broken_cv2 (pixel_frame 7) = calculate_image_hash broken_cv2 (pixel_frame 9) \<and>
   ocr_calls (monitor_loop (counting_config broken_cv2) (monitor_start 0)
     [sample_tick 1 7, sample_tick 2 9]) = [pixel_frame 7] \<and>
   \<not> hashing_fails sample_cv2 (pixel_frame 7) \<and>
   calculate_image_hash sample_cv2 (pixel_frame 7) = 7"
proof -
  have c: "calculate_image_hash broken_cv2 (pixel_frame 7) = 0"
    "calculate_image_hash broken_cv2 (pixel_frame 7) = calculate_image_hash broken_cv2 (pixel_frame 9)"
    using fingerprint_total [of broken_cv2 "pixel_frame 7" "pixel_frame 9"] broken_hashing by blast+
  have "monitor_loop (counting_config broken_cv2) (monitor_start 0) [sample_tick 1 7, sample_tick 2 9] =
        monitor_loop (counting_config broken_cv2) (monitor_start 0) [sample_tick 1 7]"
    using fingerprint_total [of broken_cv2 "pixel_frame 7" "pixel_frame 9"
        "counting_config broken_cv2" "sample_tick 1 7" "sample_tick 2 9" "monitor_start 0"]
      sample_fingerprinted [of broken_cv2 7]
    by (simp add: sample_capture broken_hashing)
  then have "ocr_calls (monitor_loop (counting_config broken_cv2) (monitor_start 0)
     [sample_tick 1 7, sample_tick 2 9]) = [pixel_frame 7]"
    by (simp add: sample_run)
  with c sample_fingerprinted [of broken_cv2 7] sample_hashing
  show ?thesis by (simp add: sample_capture broken_hashing)
qed

end
